theory Spec2Isabelle
  imports Complex_Main "HOL-Library.AList"
begin

section \<open>Values, documents and exceptions\<close>

text \<open>
  The backend (\<^verbatim>\<open>src/backend/server.py\<close>) works on documents fetched from a document
  store: Python dictionaries from field names to values. A field of a stored balance or
  rate document holds a scalar: null, a number or a string.

  Numbers: a Python \<^verbatim>\<open>int\<close> or \<^verbatim>\<open>float\<close> is the real number it denotes, so that
  Python's \<^verbatim>\<open>1 == 1.0\<close> is equality of reals. The arithmetic of floats is not that of
  the reals; it is the subject of the section on floating point below.
\<close>

datatype pyval = PyNone | PyNum real | PyStr string

type_synonym doc = "string \<rightharpoonup> pyval"

text \<open>
  The exceptions the modelled code can raise. Every endpoint wraps its body in
  \<^verbatim>\<open>try: ... except Exception as e: raise HTTPException(status_code=500, detail=str(e))\<close>,
  so an exception raised inside leaves the endpoint as an HTTP 500 carrying it.
\<close>

datatype exc =
    ZeroDivisionError
  | KeyError string
  | TypeError
  | ValidationError
  | HTTPException404

datatype http_error = HTTP500 exc

definition http_500 :: "exc + 'a \<Rightarrow> http_error + 'a" where
  "http_500 m = (case m of Inl e \<Rightarrow> Inl (HTTP500 e) | Inr x \<Rightarrow> Inr x)"

text \<open>Sequencing of computations that may raise.\<close>

definition bind :: "exc + 'a \<Rightarrow> ('a \<Rightarrow> exc + 'b) \<Rightarrow> exc + 'b" where
  "bind m f = (case m of Inl e \<Rightarrow> Inl e | Inr x \<Rightarrow> f x)"

text \<open>\<^verbatim>\<open>d[k]\<close>: raises KeyError when the key is absent.\<close>

definition getitem :: "doc \<Rightarrow> string \<Rightarrow> exc + pyval" where
  "getitem d k = (case d k of None \<Rightarrow> Inl (KeyError k) | Some v \<Rightarrow> Inr v)"

text \<open>\<^verbatim>\<open>d.get(k, default)\<close>; \<^verbatim>\<open>d.get(k)\<close> is \<^verbatim>\<open>d.get(k, None)\<close>.\<close>

definition get_default :: "doc \<Rightarrow> string \<Rightarrow> pyval \<Rightarrow> pyval" where
  "get_default d k dflt = (case d k of None \<Rightarrow> dflt | Some v \<Rightarrow> v)"

definition get :: "doc \<Rightarrow> string \<Rightarrow> pyval" where
  "get d k = get_default d k PyNone"

text \<open>
  \<^verbatim>\<open>v < 0\<close>: defined on numbers; comparing \<^verbatim>\<open>None\<close> or a string with an integer
  raises TypeError.
\<close>

fun lt_zero :: "pyval \<Rightarrow> exc + bool" where
  "lt_zero (PyNum x) = Inr (x < 0)"
| "lt_zero PyNone = Inl TypeError"
| "lt_zero (PyStr s) = Inl TypeError"

text \<open>
  The number an arithmetic operand denotes: \<^verbatim>\<open>n + v\<close> and \<^verbatim>\<open>v - n\<close> with a number
  \<open>n\<close> raise TypeError unless \<open>v\<close> is a number.
\<close>

fun num_of :: "pyval \<Rightarrow> exc + real" where
  "num_of (PyNum x) = Inr x"
| "num_of PyNone = Inl TypeError"
| "num_of (PyStr s) = Inl TypeError"

text \<open>\<^verbatim>\<open>str(n)\<close> for a non-negative integer: its decimal digits.\<close>

definition digit_char :: "nat \<Rightarrow> char" where
  "digit_char d = ''0123456789'' ! d"

function str_nat :: "nat \<Rightarrow> string" where
  "str_nat n = (if n < 10 then [digit_char n] else str_nat (n div 10) @ [digit_char (n mod 10)])"
  by pat_completeness auto
termination
  by (relation "measure id") auto

declare str_nat.simps [simp del]

definition str_int :: "int \<Rightarrow> string" where
  "str_int i = (if i < 0 then CHR ''-'' # str_nat (nat (- i)) else str_nat (nat i))"

text \<open>\<^verbatim>\<open>cursor.to_list(n)\<close>: at most the first \<open>n\<close> documents of the result.\<close>

definition to_list :: "nat \<Rightarrow> 'a list \<Rightarrow> 'a list" where
  "to_list n xs = take n xs"

section \<open>Floating point\<close>

text \<open>
  A Python float is an IEEE 754 binary64 number. Its comparisons, \<^verbatim>\<open>abs\<close>, \<^verbatim>\<open>min\<close>
  and \<^verbatim>\<open>max\<close> are exact. An addition, subtraction, multiplication or division returns
  the float nearest to the exact result, a tie going to the even significand; so does
  the division of two integers by \<^verbatim>\<open>/\<close>, and a float literal such as \<^verbatim>\<open>0.3\<close> is the
  float nearest to the decimal written. An integer operand of a float operation is
  converted first, exactly for the integers met here.

  \<open>nearest_float x\<close> is that rounding of a real number: the significand has 53 bits,
  and below \<open>2\<^sup>-\<^sup>1\<^sup>0\<^sup>2\<^sup>2\<close> the spacing stays that of the smallest normal floats. Not
  modelled: the infinities an operation returns from \<open>2\<^sup>1\<^sup>0\<^sup>2\<^sup>4\<close> on, NaN, and the sign
  of zero.
\<close>

definition round_half_even :: "real \<Rightarrow> int" where
  "round_half_even y =
     (let f = \<lfloor>y\<rfloor>; d = y - of_int f
      in if d < 1 / 2 then f
         else if 1 / 2 < d then f + 1
         else if even f then f else f + 1)"

definition pow2 :: "int \<Rightarrow> real" where
  "pow2 e = (if 0 \<le> e then 2 ^ nat e else 1 / 2 ^ nat (- e))"

text \<open>The binary exponent \<open>e\<close> of a non-zero number: \<open>2\<^sup>e \<le> |x| < 2\<^sup>e\<^sup>+\<^sup>1\<close>.\<close>

function expo_up :: "real \<Rightarrow> int" where
  "expo_up x = (if x < 2 then 0 else expo_up (x / 2) + 1)"
  by pat_completeness auto
termination
proof (relation "measure (\<lambda>x. nat \<lfloor>x\<rfloor>)")
  show "wf (measure (\<lambda>x. nat \<lfloor>x\<rfloor>))" by simp
next
  fix x :: real
  assume "\<not> x < 2"
  then have "x / 2 \<le> x - 1" by simp
  then have "\<lfloor>x / 2\<rfloor> \<le> \<lfloor>x - 1\<rfloor>" by (rule floor_mono)
  moreover have "0 < \<lfloor>x\<rfloor>" using \<open>\<not> x < 2\<close> by (simp add: floor_less_iff not_less)
  ultimately show "(x / 2, x) \<in> measure (\<lambda>x. nat \<lfloor>x\<rfloor>)" by simp
qed

function expo_down :: "real \<Rightarrow> int" where
  "expo_down x = (if x \<le> 0 \<or> 1 \<le> x then 0 else expo_down (x * 2) - 1)"
  by pat_completeness auto
termination
proof (relation "measure (\<lambda>x. nat \<lceil>1 / x\<rceil>)")
  show "wf (measure (\<lambda>x. nat \<lceil>1 / x\<rceil>))" by simp
next
  fix x :: real
  assume "\<not> (x \<le> 0 \<or> 1 \<le> x)"
  then have x: "0 < x" "x < 1" by simp_all
  then have "1 < 1 / x" by simp
  then have c: "2 \<le> \<lceil>1 / x\<rceil>" by linarith
  have "1 / (x * 2) = (1 / x) / 2" by simp
  also have "\<dots> \<le> of_int \<lceil>1 / x\<rceil> / 2" by (simp add: divide_right_mono)
  also have "\<dots> \<le> of_int (\<lceil>1 / x\<rceil> - 1)" using c by simp
  finally have "\<lceil>1 / (x * 2)\<rceil> \<le> \<lceil>1 / x\<rceil> - 1" by (rule ceiling_le)
  with c x show "(x * 2, x) \<in> measure (\<lambda>x. nat \<lceil>1 / x\<rceil>)" by simp
qed

declare expo_up.simps [simp del] expo_down.simps [simp del]

definition expo :: "real \<Rightarrow> int" where
  "expo x = (if 1 \<le> \<bar>x\<bar> then expo_up \<bar>x\<bar> else expo_down \<bar>x\<bar>)"

definition nearest_float :: "real \<Rightarrow> real" where
  "nearest_float x =
     (if x = 0 then 0
      else let ulp = pow2 (max (expo x) (- 1022) - 52)
           in of_int (round_half_even (x / ulp)) * ulp)"

definition fadd :: "real \<Rightarrow> real \<Rightarrow> real" where
  "fadd x y = nearest_float (x + y)"

definition fsub :: "real \<Rightarrow> real \<Rightarrow> real" where
  "fsub x y = nearest_float (x - y)"

definition fmul :: "real \<Rightarrow> real \<Rightarrow> real" where
  "fmul x y = nearest_float (x * y)"

definition fdiv :: "real \<Rightarrow> real \<Rightarrow> real" where
  "fdiv x y = nearest_float (x / y)"

text \<open>
  \<^verbatim>\<open>round(x, ndigits)\<close> on a float: the exact value of \<open>x\<close> is rounded to the nearest
  multiple of \<open>10\<^sup>-\<^sup>n\<close>, a tie going to the even digit, and the result is the float
  nearest to that decimal.
\<close>

definition py_round :: "real \<Rightarrow> nat \<Rightarrow> real" where
  "py_round x ndigits =
     nearest_float (of_int (round_half_even (x * 10 ^ ndigits)) / 10 ^ ndigits)"

text \<open>
  The builtin \<^verbatim>\<open>sum\<close> over floats depends on the interpreter: CPython up to 3.11 adds
  from the left, starting at 0, and from 3.12 on it compensates the rounding errors of
  the additions. The functions below that call \<^verbatim>\<open>sum\<close> take it as their parameter
  \<open>sum_float\<close>; \<open>sum_left_to_right\<close> is the sum of the interpreters up to 3.11.
\<close>

definition sum_left_to_right :: "real list \<Rightarrow> real" where
  "sum_left_to_right xs = foldl fadd 0 xs"

text \<open>
  The exact results of the additions that the sum from the left makes, each on the float
  that the addition before returned: the numbers that its additions round.
\<close>

fun rounded_sums :: "real \<Rightarrow> real list \<Rightarrow> real list" where
  "rounded_sums acc [] = []"
| "rounded_sums acc (x # xs) = (acc + x) # rounded_sums (fadd acc x) xs"

text \<open>
  The two constants of the rounding error of \<open>nearest_float\<close>: relative to the
  magnitude of the number, and absolute below the normal range.
\<close>

definition float_eps :: real where
  "float_eps = 1 / 2 ^ 53"

definition float_tiny :: real where
  "float_tiny = 1 / 2 ^ 1075"

text \<open>
  The numbers a theorem on the arithmetic speaks of: floats, and of a magnitude with
  which no sum, quotient or product of the code over the at most 10000 records of a
  query leaves the range of the finite floats.
\<close>

definition is_float :: "real \<Rightarrow> bool" where
  "is_float x = (nearest_float x = x \<and> \<bar>x\<bar> \<le> 10 ^ 300)"

section \<open>Data model\<close>

text \<open>
  A response body is a Python dictionary literal whose values are scalars, lists and
  dictionaries; a dictionary keeps its keys in insertion order, so it is an association
  list with distinct keys.
\<close>

datatype json = Leaf pyval | Arr "json list" | Obj "(pyval \<times> json) list"

text \<open>\<^verbatim>\<open>r[k]\<close> on a response body, \<open>None\<close> when the key is absent.\<close>

abbreviation JStr :: "string \<Rightarrow> json" where
  "JStr s \<equiv> Leaf (PyStr s)"

abbreviation JNum :: "real \<Rightarrow> json" where
  "JNum x \<equiv> Leaf (PyNum x)"

fun field :: "json \<Rightarrow> string \<Rightarrow> json option" where
  "field (Obj kvs) k = map_of kvs (PyStr k)"
| "field (Leaf v) k = None"
| "field (Arr xs) k = None"

text \<open>
  The pydantic classes the code builds, as records. The \<^verbatim>\<open>id\<close> field (a fresh
  \<^verbatim>\<open>uuid4\<close> string for every object) is left out: nothing below reads it.
\<close>

record CashBalance =
  account_number :: string
  balance_date :: string
  currency :: string
  balance_local :: real
  balance_usd :: real
  entity_code :: string
  region :: string

text \<open>The document that \<^verbatim>\<open>CashBalance(...).model_dump()\<close> stores.\<close>

definition model_dump_balance :: "CashBalance \<Rightarrow> doc" where
  "model_dump_balance b =
     [''account_number'' \<mapsto> PyStr (account_number b),
      ''balance_date'' \<mapsto> PyStr (balance_date b),
      ''currency'' \<mapsto> PyStr (CashBalance.currency b),
      ''balance_local'' \<mapsto> PyNum (balance_local b),
      ''balance_usd'' \<mapsto> PyNum (balance_usd b),
      ''entity_code'' \<mapsto> PyStr (entity_code b),
      ''region'' \<mapsto> PyStr (CashBalance.region b)]"

record CashPool =
  pool_name :: string
  pool_type :: string
  region :: string
  header_account :: string
  participant_accounts :: "string list"
  currency :: string

record NettingResult =
  netting_date :: string
  from_entity :: string
  to_entity :: string
  amount :: real
  currency :: string
  status :: string

record ValidationLog =
  check_date :: string
  check_type :: string
  severity :: string
  description :: string
  affected_records :: int
  status :: string

text \<open>
  The collections of the store that the modelled endpoints read or write. Balance and
  rate documents are written by the model classes and by the file import, which stores
  the rows of the uploaded sheet as they are; pools, netting results and validation logs
  are only ever written as dumps of their model class.
\<close>

record db =
  cash_balances :: "doc list"
  fx_rates :: "doc list"
  cash_pools :: "CashPool list"
  netting_results :: "NettingResult list"
  validation_logs :: "ValidationLog list"

text \<open>
  The operations the two writing endpoints issue against the store, in the order they
  issue them: \<^verbatim>\<open>delete_many({})\<close> and \<^verbatim>\<open>insert_many(docs)\<close> on a collection, and
  the query \<^verbatim>\<open>cash_balances.find({})\<close>, which leaves the store as it is.
\<close>

datatype store_op =
    Find_cash_balances
  | Delete_netting_results
  | Insert_netting_results "NettingResult list"
  | Delete_validation_logs
  | Insert_validation_logs "ValidationLog list"

fun apply_op :: "db \<Rightarrow> store_op \<Rightarrow> db" where
  "apply_op s Find_cash_balances = s"
| "apply_op s Delete_netting_results = s\<lparr>netting_results := []\<rparr>"
| "apply_op s (Insert_netting_results rs) = s\<lparr>netting_results := netting_results s @ rs\<rparr>"
| "apply_op s Delete_validation_logs = s\<lparr>validation_logs := []\<rparr>"
| "apply_op s (Insert_validation_logs ls) = s\<lparr>validation_logs := validation_logs s @ ls\<rparr>"

definition apply_ops :: "db \<Rightarrow> store_op list \<Rightarrow> db" where
  "apply_ops s ops = foldl apply_op s ops"

section \<open>Data validation\<close>

text \<open>
  \<^verbatim>\<open>validate_data(balances)\<close>, lines 133 to 175. \<open>today\<close> is the value of
  \<^verbatim>\<open>datetime.now(timezone.utc).isoformat()\<close>. The three checks run in the order of
  the source; each is a block of the function.
\<close>

definition is_missing :: "doc \<Rightarrow> bool" where
  "is_missing b = (get b ''balance_local'' = PyNone \<or> get b ''balance_local'' = PyNum 0)"

definition missing_count :: "doc list \<Rightarrow> int" where
  "missing_count balances = int (length (filter is_missing balances))"

definition missing_check :: "string \<Rightarrow> doc list \<Rightarrow> ValidationLog list" where
  "missing_check today balances =
     (if missing_count balances > 0 then
        [\<lparr>check_date = today, check_type = ''missing_balance'', severity = ''High'',
          description = ''Found '' @ str_int (missing_count balances)
                        @ '' accounts with missing or zero balances'',
          affected_records = missing_count balances, ValidationLog.status = ''Open''\<rparr>]
      else [])"

text \<open>
  \<^verbatim>\<open>sum(1 for b in balances if b.get('balance_local', 0) < 0)\<close>: the comparison is
  evaluated for every record in turn, and the first one that raises ends the function.
\<close>

fun negative_count :: "doc list \<Rightarrow> exc + int" where
  "negative_count [] = Inr 0"
| "negative_count (b # bs) =
     bind (lt_zero (get_default b ''balance_local'' (PyNum 0)))
       (\<lambda>neg. bind (negative_count bs) (\<lambda>n. Inr ((if neg then 1 else 0) + n)))"

definition negative_log :: "string \<Rightarrow> int \<Rightarrow> ValidationLog list" where
  "negative_log today n =
     (if n > 0 then
        [\<lparr>check_date = today, check_type = ''negative_cash'', severity = ''Medium'',
          description = ''Found '' @ str_int n @ '' accounts with negative balances'',
          affected_records = n, ValidationLog.status = ''Open''\<rparr>]
      else [])"

definition account_dates :: "doc list \<Rightarrow> (pyval \<times> pyval) list" where
  "account_dates balances = map (\<lambda>b. (get b ''account_number'', get b ''balance_date'')) balances"

text \<open>\<^verbatim>\<open>len(account_dates) - len(set(account_dates))\<close>.\<close>

definition duplicates :: "doc list \<Rightarrow> int" where
  "duplicates balances =
     int (length (account_dates balances)) - int (length (remdups (account_dates balances)))"

definition duplicate_check :: "string \<Rightarrow> doc list \<Rightarrow> ValidationLog list" where
  "duplicate_check today balances =
     (if duplicates balances > 0 then
        [\<lparr>check_date = today, check_type = ''duplicate'', severity = ''High'',
          description = ''Found '' @ str_int (duplicates balances)
                        @ '' duplicate account-date combinations'',
          affected_records = duplicates balances, ValidationLog.status = ''Open''\<rparr>]
      else [])"

definition validate_data :: "string \<Rightarrow> doc list \<Rightarrow> exc + ValidationLog list" where
  "validate_data today balances =
     bind (negative_count balances)
       (\<lambda>n. Inr (missing_check today balances @ negative_log today n
                 @ duplicate_check today balances))"

section \<open>Currency conversion\<close>

text \<open>
  \<^verbatim>\<open>collection.find_one({k: v})\<close>: the first document whose field \<open>k\<close> holds \<open>v\<close>, or
  \<^verbatim>\<open>None\<close>.
\<close>

definition find_one :: "string \<Rightarrow> pyval \<Rightarrow> doc list \<Rightarrow> doc option" where
  "find_one k v docs = List.find (\<lambda>d. d k = Some v) docs"

definition default_rates :: "(string \<times> real) list" where
  "default_rates =
     [(''EUR/USD'', nearest_float (110 / 100)), (''GBP/USD'', nearest_float (127 / 100)),
      (''SGD/USD'', nearest_float (74 / 100)), (''JPY/USD'', nearest_float (67 / 10000)),
      (''CNY/USD'', nearest_float (14 / 100)), (''INR/USD'', nearest_float (12 / 1000)),
      (''AUD/USD'', nearest_float (66 / 100))]"

text \<open>
  \<^verbatim>\<open>get_fx_rate(from_currency, to_currency)\<close>, lines 109 to 131. A document that
  \<^verbatim>\<open>find_one\<close> returns has the field it was found by, so it is a non-empty dictionary
  and \<^verbatim>\<open>if rate_doc:\<close> holds exactly when a document was found.
\<close>

definition get_fx_rate :: "db \<Rightarrow> string \<Rightarrow> string \<Rightarrow> exc + pyval" where
  "get_fx_rate s from_currency to_currency =
     (if from_currency = to_currency then Inr (PyNum 1)
      else
        let currency_pair = from_currency @ ''/'' @ to_currency in
        case find_one ''currency_pair'' (PyStr currency_pair) (fx_rates s) of
          Some rate_doc \<Rightarrow> getitem rate_doc ''rate''
        | None \<Rightarrow>
            Inr (PyNum (case map_of default_rates currency_pair of
                          Some r \<Rightarrow> r | None \<Rightarrow> 1)))"

section \<open>Sums and grouping\<close>

text \<open>
  \<^verbatim>\<open>sum(b['balance_usd'] for b in balances)\<close>: the records are taken in order; a
  record without the field raises KeyError when it is reached and a value that is no
  number raises TypeError when it is added. \<open>float_values\<close> are the numbers added.
\<close>

fun float_values :: "string \<Rightarrow> doc list \<Rightarrow> exc + real list" where
  "float_values k [] = Inr []"
| "float_values k (b # bs) =
     bind (getitem b k) (\<lambda>v.
     bind (num_of v) (\<lambda>x.
     bind (float_values k bs) (\<lambda>xs. Inr (x # xs))))"

definition sum_usd :: "(real list \<Rightarrow> real) \<Rightarrow> doc list \<Rightarrow> exc + real" where
  "sum_usd sum_float balances =
     bind (float_values ''balance_usd'' balances) (\<lambda>xs. Inr (sum_float xs))"

text \<open>\<^verbatim>\<open>d.get(k, default)\<close> on a dictionary built by the code.\<close>

definition dict_get :: "('k \<times> 'v) list \<Rightarrow> 'k \<Rightarrow> 'v \<Rightarrow> 'v" where
  "dict_get d k dflt = (case map_of d k of None \<Rightarrow> dflt | Some v \<Rightarrow> v)"

text \<open>
  The grouping loop the endpoints share, with \<open>kf\<close> the field grouped by and \<open>vf\<close> the
  field summed:
  \<^verbatim>\<open>for balance in balances: k = balance[kf]; d[k] = d.get(k, 0) + balance[vf]\<close>.
  Assigning to a key that exists keeps its place; a new key goes last.
\<close>

fun group_sum :: "string \<Rightarrow> string \<Rightarrow> doc list \<Rightarrow> (pyval \<times> real) list \<Rightarrow> exc + (pyval \<times> real) list" where
  "group_sum kf vf [] d = Inr d"
| "group_sum kf vf (balance # rest) d =
     bind (getitem balance kf) (\<lambda>k.
     bind (getitem balance vf) (\<lambda>v.
     bind (num_of v) (\<lambda>x.
       group_sum kf vf rest (AList.update k (fadd (dict_get d k 0) x) d))))"

text \<open>\<^verbatim>\<open>{k: round(v, 2) for k, v in d.items()}\<close>.\<close>

definition round_values :: "(pyval \<times> real) list \<Rightarrow> json" where
  "round_values d = Obj (map (\<lambda>(k, v). (k, JNum (py_round v 2))) d)"

section \<open>Liquidity positions\<close>

text \<open>\<^verbatim>\<open>get_global_position()\<close>, lines 400 to 437.\<close>

definition get_global_position :: "(real list \<Rightarrow> real) \<Rightarrow> db \<Rightarrow> http_error + json" where
  "get_global_position sum_float s =
     (case to_list 10000 (cash_balances s) of
        [] \<Rightarrow>
          Inr (Obj [(PyStr ''total_liquidity_usd'', JNum 0),
                    (PyStr ''by_region'', Obj []),
                    (PyStr ''by_currency'', Obj []),
                    (PyStr ''total_accounts'', JNum 0)])
      | first # others \<Rightarrow>
          let balances = first # others in
          http_500
            (bind (sum_usd sum_float balances) (\<lambda>total_usd.
             bind (group_sum ''region'' ''balance_usd'' balances []) (\<lambda>by_region.
             bind (group_sum ''currency'' ''balance_local'' balances []) (\<lambda>by_currency.
             bind (getitem first ''balance_date'') (\<lambda>as_of_date.
               Inr (Obj [(PyStr ''total_liquidity_usd'', JNum (py_round total_usd 2)),
                         (PyStr ''by_region'', round_values by_region),
                         (PyStr ''by_currency'', round_values by_currency),
                         (PyStr ''total_accounts'', JNum (real (length balances))),
                         (PyStr ''as_of_date'', Leaf as_of_date)])))))))"

text \<open>
  \<^verbatim>\<open>get_regional_liquidity(region)\<close>, lines 440 to 474. The query
  \<^verbatim>\<open>find({"region": region})\<close> keeps the documents whose \<^verbatim>\<open>region\<close> field is that
  string.
\<close>

definition get_regional_liquidity ::
  "(real list \<Rightarrow> real) \<Rightarrow> db \<Rightarrow> string \<Rightarrow> http_error + json" where
  "get_regional_liquidity sum_float s region' =
     (let balances =
            to_list 10000 (filter (\<lambda>b. b ''region'' = Some (PyStr region')) (cash_balances s))
      in if balances = [] then
           Inr (Obj [(PyStr ''region'', JStr region'),
                     (PyStr ''total_usd'', JNum 0),
                     (PyStr ''entities'', Arr []),
                     (PyStr ''currencies'', Obj [])])
         else
           http_500
             (bind (group_sum ''entity_code'' ''balance_usd'' balances []) (\<lambda>by_entity.
              bind (group_sum ''currency'' ''balance_local'' balances []) (\<lambda>by_currency.
              bind (sum_usd sum_float balances) (\<lambda>total.
                Inr (Obj [(PyStr ''region'', JStr region'),
                          (PyStr ''total_usd'', JNum (py_round total 2)),
                          (PyStr ''entities'', round_values by_entity),
                          (PyStr ''currencies'', round_values by_currency),
                          (PyStr ''account_count'', JNum (real (length balances)))]))))))"

section \<open>Cash pooling\<close>

text \<open>
  The query \<^verbatim>\<open>find({"account_number": {"$in": pool['participant_accounts']}})\<close>
  followed by \<^verbatim>\<open>to_list(1000)\<close>: the balance documents, in store order, whose account
  number is one of the pool's participant accounts.
\<close>

definition pool_balances :: "db \<Rightarrow> CashPool \<Rightarrow> doc list" where
  "pool_balances s pool =
     to_list 1000
       (filter (\<lambda>b. b ''account_number'' \<in> set (map (\<lambda>a. Some (PyStr a)) (participant_accounts pool)))
          (cash_balances s))"





text \<open>The loop of \<^verbatim>\<open>calculate_cash_pooling\<close> over the balances, lines 543 to 552.\<close>

fun participants_loop :: "real \<Rightarrow> doc list \<Rightarrow> exc + json list" where
  "participants_loop average_balance [] = Inr []"
| "participants_loop average_balance (balance # rest) =
     bind (getitem balance ''balance_usd'') (\<lambda>usd.
     bind (num_of usd) (\<lambda>x.
       let variance = fsub x average_balance in
       bind (getitem balance ''account_number'') (\<lambda>account.
       bind (getitem balance ''entity_code'') (\<lambda>entity.
       bind (participants_loop average_balance rest) (\<lambda>participants.
         Inr (Obj [(PyStr ''account'', Leaf account),
                   (PyStr ''entity'', Leaf entity),
                   (PyStr ''balance_usd'', Leaf usd),
                   (PyStr ''variance_from_avg'', JNum (py_round variance 2)),
                   (PyStr ''status'', JStr (if variance > 0 then ''Surplus'' else ''Deficit''))]
              # participants))))))"

text \<open>
  \<^verbatim>\<open>calculate_cash_pooling(region)\<close>, lines 517 to 564; \<open>now\<close> is the time stamp of the
  response. The 404 for a region without a pool is raised inside the \<^verbatim>\<open>try\<close> block,
  whose \<^verbatim>\<open>except Exception\<close> turns it into a 500 like every other exception.
\<close>

definition calculate_cash_pooling ::
  "(real list \<Rightarrow> real) \<Rightarrow> string \<Rightarrow> db \<Rightarrow> string \<Rightarrow> http_error + json" where
  "calculate_cash_pooling sum_float now s region' =
     http_500
       (case List.find (\<lambda>p. CashPool.region p = region') (cash_pools s) of
          None \<Rightarrow> Inl HTTPException404
        | Some pool \<Rightarrow>
            let balances = pool_balances s pool in
            if balances = [] then
              Inr (Obj [(PyStr ''pool_name'', JStr (pool_name pool)),
                        (PyStr ''total_pooled'', JNum 0),
                        (PyStr ''participants'', Arr [])])
            else
              bind (sum_usd sum_float balances) (\<lambda>total_pooled.
                let average_balance = fdiv total_pooled (real (length balances)) in
                bind (participants_loop average_balance balances) (\<lambda>participants.
                  Inr (Obj [(PyStr ''pool_name'', JStr (pool_name pool)),
                            (PyStr ''pool_type'', JStr (pool_type pool)),
                            (PyStr ''total_pooled_usd'', JNum (py_round total_pooled 2)),
                            (PyStr ''average_balance'', JNum (py_round average_balance 2)),
                            (PyStr ''participants'', Arr participants),
                            (PyStr ''calculation_date'', JStr now)]))))"

section \<open>Netting\<close>

text \<open>Lines 596 to 599: the amount netted between a deficit and a surplus entity.\<close>

definition netting_amount :: "real \<Rightarrow> real \<Rightarrow> real \<Rightarrow> real" where
  "netting_amount avg_balance deficit_amount surplus_amount =
     fmul (min \<bar>fsub deficit_amount avg_balance\<bar> (fsub surplus_amount avg_balance))
       (nearest_float (3 / 10))"

text \<open>
  \<^verbatim>\<open>random.choice(xs)\<close> with \<open>r\<close> the number the generator draws: an element of a
  non-empty list.
\<close>

definition random_choice :: "nat \<Rightarrow> 'a list \<Rightarrow> 'a" where
  "random_choice r xs = xs ! (r mod length xs)"

text \<open>
  The nested loops of lines 593 to 609. \<open>rnd i\<close> is the draw of the \<open>i\<close>-th call of
  \<^verbatim>\<open>random.choice\<close>; one call is made for each transaction appended, so the call
  appending to a list of \<open>i\<close> transactions is the \<open>i\<close>-th.
\<close>

definition netting_dict :: "string \<Rightarrow> pyval \<Rightarrow> pyval \<Rightarrow> real \<Rightarrow> string \<Rightarrow> json" where
  "netting_dict today surplus_entity deficit_entity amt st =
     Obj [(PyStr ''netting_date'', JStr today),
          (PyStr ''from_entity'', Leaf surplus_entity),
          (PyStr ''to_entity'', Leaf deficit_entity),
          (PyStr ''amount'', JNum amt),
          (PyStr ''currency'', JStr ''USD''),
          (PyStr ''status'', JStr st)]"

fun surplus_loop ::
  "(nat \<Rightarrow> nat) \<Rightarrow> string \<Rightarrow> real \<Rightarrow> pyval \<times> real \<Rightarrow> (pyval \<times> real) list \<Rightarrow> json list \<Rightarrow> json list" where
  "surplus_loop rnd today avg_balance deficit [] results = results"
| "surplus_loop rnd today avg_balance deficit (surplus # rest) results =
     surplus_loop rnd today avg_balance deficit rest
       (if netting_amount avg_balance (snd deficit) (snd surplus) > 100000 then
          results @
            [netting_dict today (fst surplus) (fst deficit)
               (py_round (netting_amount avg_balance (snd deficit) (snd surplus)) 2)
               (random_choice (rnd (length results))
                  [''Settled'', ''Pending'', ''Settled'', ''Settled''])]
        else results)"

fun deficit_loop ::
  "(nat \<Rightarrow> nat) \<Rightarrow> string \<Rightarrow> real \<Rightarrow> (pyval \<times> real) list \<Rightarrow> (pyval \<times> real) list \<Rightarrow> json list \<Rightarrow> json list" where
  "deficit_loop rnd today avg_balance [] surpluses results = results"
| "deficit_loop rnd today avg_balance (deficit # rest) surpluses results =
     deficit_loop rnd today avg_balance rest surpluses
       (surplus_loop rnd today avg_balance deficit surpluses results)"

text \<open>
  Line 585: \<^verbatim>\<open>sum(entity_balances.values()) / len(entity_balances)\<close>; dividing by the
  length 0 raises ZeroDivisionError.
\<close>

definition average :: "(real list \<Rightarrow> real) \<Rightarrow> (pyval \<times> real) list \<Rightarrow> exc + real" where
  "average sum_float entity_balances =
     (if length entity_balances = 0 then Inl ZeroDivisionError
      else Inr (fdiv (sum_float (map snd entity_balances)) (real (length entity_balances))))"

text \<open>Lines 578 to 609: from the balances read to the list of transactions.\<close>

definition netting_transactions ::
  "(real list \<Rightarrow> real) \<Rightarrow> (nat \<Rightarrow> nat) \<Rightarrow> string \<Rightarrow> doc list \<Rightarrow> exc + json list" where
  "netting_transactions sum_float rnd today balances =
     bind (group_sum ''entity_code'' ''balance_usd'' balances []) (\<lambda>entity_balances.
     bind (average sum_float entity_balances) (\<lambda>avg_balance.
       let surplus_entities = filter (\<lambda>(k, v). v > avg_balance) entity_balances;
           deficit_entities = filter (\<lambda>(k, v). v < avg_balance) entity_balances
       in Inr (deficit_loop rnd today avg_balance
                 (take 3 deficit_entities) (take 2 surplus_entities) [])))"

text \<open>
  \<^verbatim>\<open>NettingResult(**n)\<close>: pydantic accepts a string for a \<^verbatim>\<open>str\<close> field and a number
  for a \<^verbatim>\<open>float\<close> field, and raises a validation error for a missing field, a null, or
  a number where a string is declared.
\<close>

definition str_field :: "json \<Rightarrow> string \<Rightarrow> exc + string" where
  "str_field n k = (case field n k of Some (Leaf (PyStr x)) \<Rightarrow> Inr x | _ \<Rightarrow> Inl ValidationError)"

definition float_field :: "json \<Rightarrow> string \<Rightarrow> exc + real" where
  "float_field n k = (case field n k of Some (Leaf (PyNum x)) \<Rightarrow> Inr x | _ \<Rightarrow> Inl ValidationError)"

definition NettingResult_of :: "json \<Rightarrow> exc + NettingResult" where
  "NettingResult_of n =
     bind (str_field n ''netting_date'') (\<lambda>d.
     bind (str_field n ''from_entity'') (\<lambda>f.
     bind (str_field n ''to_entity'') (\<lambda>t.
     bind (float_field n ''amount'') (\<lambda>a.
     bind (str_field n ''currency'') (\<lambda>c.
     bind (str_field n ''status'') (\<lambda>st.
       Inr \<lparr>netting_date = d, from_entity = f, to_entity = t, amount = a,
            NettingResult.currency = c, NettingResult.status = st\<rparr>))))))"

fun netting_objs_of :: "json list \<Rightarrow> exc + NettingResult list" where
  "netting_objs_of [] = Inr []"
| "netting_objs_of (n # ns) =
     bind (NettingResult_of n) (\<lambda>obj. bind (netting_objs_of ns) (\<lambda>objs. Inr (obj # objs)))"

text \<open>\<^verbatim>\<open>sum(n['amount'] for n in netting_results)\<close>.\<close>

fun amounts :: "json list \<Rightarrow> exc + real list" where
  "amounts [] = Inr []"
| "amounts (n # ns) =
     (case field n ''amount'' of
        None \<Rightarrow> Inl (KeyError ''amount'')
      | Some (Leaf v) \<Rightarrow>
          bind (num_of v) (\<lambda>x. bind (amounts ns) (\<lambda>xs. Inr (x # xs)))
      | Some _ \<Rightarrow> Inl TypeError)"

definition sum_amount :: "(real list \<Rightarrow> real) \<Rightarrow> json list \<Rightarrow> exc + real" where
  "sum_amount sum_float results = bind (amounts results) (\<lambda>xs. Inr (sum_float xs))"

text \<open>
  \<^verbatim>\<open>run_netting()\<close>, lines 569 to 624. The result is the list of operations issued
  against the store, in order, and the response or the HTTP error; the balances are read
  from the store as the deletion before has left it.
\<close>

definition run_netting ::
  "(real list \<Rightarrow> real) \<Rightarrow> (nat \<Rightarrow> nat) \<Rightarrow> string \<Rightarrow> db
     \<Rightarrow> store_op list \<times> (http_error + json)" where
  "run_netting sum_float rnd today s =
     (let balances = to_list 10000 (cash_balances (apply_op s Delete_netting_results));
          issued = [Delete_netting_results, Find_cash_balances]
      in case netting_transactions sum_float rnd today balances of
           Inl e \<Rightarrow> (issued, Inl (HTTP500 e))
         | Inr results \<Rightarrow>
             (case (if results \<noteq> [] then netting_objs_of results else Inr []) of
                Inl e \<Rightarrow> (issued, Inl (HTTP500 e))
              | Inr netting_objs \<Rightarrow>
                  (issued @ (if results \<noteq> [] then [Insert_netting_results netting_objs] else []),
                   http_500
                     (bind (sum_amount sum_float results) (\<lambda>total.
                        Inr (Obj [(PyStr ''status'', JStr ''success''),
                                  (PyStr ''netting_date'', JStr today),
                                  (PyStr ''total_transactions'', JNum (real (length results))),
                                  (PyStr ''total_netted_usd'', JNum (py_round total 2)),
                                  (PyStr ''transactions'', Arr results)]))))))"

section \<open>The validation endpoint\<close>

text \<open>\<^verbatim>\<open>v.model_dump()\<close> of a validation log.\<close>

definition model_dump_log :: "ValidationLog \<Rightarrow> json" where
  "model_dump_log v =
     Obj [(PyStr ''check_date'', JStr (check_date v)),
          (PyStr ''check_type'', JStr (check_type v)),
          (PyStr ''severity'', JStr (severity v)),
          (PyStr ''description'', JStr (description v)),
          (PyStr ''affected_records'', JNum (real_of_int (affected_records v))),
          (PyStr ''status'', JStr (ValidationLog.status v))]"

text \<open>
  \<^verbatim>\<open>run_validation()\<close>, lines 659 to 690; \<open>today\<close> is the time stamp taken by
  \<^verbatim>\<open>validate_data\<close> and \<open>now\<close> the one of the response.
\<close>

definition run_validation ::
  "string \<Rightarrow> string \<Rightarrow> db \<Rightarrow> store_op list \<times> (http_error + json)" where
  "run_validation today now s =
     (let balances = to_list 10000 (cash_balances s) in
      if balances = [] then
        ([Find_cash_balances],
         Inr (Obj [(PyStr ''status'', JStr ''success''),
                   (PyStr ''issues_found'', JNum 0),
                   (PyStr ''validations'', Arr [])]))
      else
        case validate_data today balances of
          Inl e \<Rightarrow> ([Find_cash_balances], Inl (HTTP500 e))
        | Inr logs \<Rightarrow>
            ([Find_cash_balances, Delete_validation_logs]
               @ (if logs \<noteq> [] then [Insert_validation_logs logs] else []),
             Inr (Obj [(PyStr ''status'', JStr ''success''),
                       (PyStr ''issues_found'', JNum (real (length logs))),
                       (PyStr ''validations'', Arr (map model_dump_log logs)),
                       (PyStr ''check_date'', JStr now)])))"

section \<open>Entity totals, as the specification words them\<close>

text \<open>
  The specification of the netting run, step 1: aggregate \<^verbatim>\<open>balance_usd\<close> per
  \<^verbatim>\<open>entity_code\<close>, the entities in their natural (insertion) order, that is in the
  order in which the snapshot first names them; the total of an entity adds its balances
  in the order of the snapshot, in floating point, starting at 0. This definition
  follows those words, to be compared with the dictionary that the loop of the code
  builds.
\<close>

fun insertion_order :: "'a list \<Rightarrow> 'a list" where
  "insertion_order [] = []"
| "insertion_order (x # xs) = x # filter (\<lambda>y. y \<noteq> x) (insertion_order xs)"

definition entity_totals :: "CashBalance list \<Rightarrow> (pyval \<times> real) list" where
  "entity_totals cbs =
     map (\<lambda>e. (PyStr e, foldl fadd 0 (map balance_usd (filter (\<lambda>b. entity_code b = e) cbs))))
       (insertion_order (map entity_code cbs))"

section \<open>Reading a response\<close>

text \<open>
  The values that the entries of a list in a response hold under a key, in the order of
  the list: \<^verbatim>\<open>[p[k] for p in resp[list_key]]\<close>, for the entries that have a number,
  respectively a scalar, there.
\<close>

definition entries :: "string \<Rightarrow> json \<Rightarrow> json list" where
  "entries list_key resp = (case field resp list_key of Some (Arr ps) \<Rightarrow> ps | _ \<Rightarrow> [])"

definition numbers :: "string \<Rightarrow> json list \<Rightarrow> real list" where
  "numbers k ps = concat (map (\<lambda>p. case field p k of Some (JNum x) \<Rightarrow> [x] | _ \<Rightarrow> []) ps)"

definition scalars :: "string \<Rightarrow> json list \<Rightarrow> pyval list" where
  "scalars k ps = concat (map (\<lambda>p. case field p k of Some (Leaf v) \<Rightarrow> [v] | _ \<Rightarrow> []) ps)"

text \<open>What a netting transaction holds under its keys for the two parties, the amount and
  the currency.\<close>

definition netting_fields ::
  "json \<Rightarrow> json option \<times> json option \<times> json option \<times> json option" where
  "netting_fields n =
     (field n ''from_entity'', field n ''to_entity'', field n ''amount'', field n ''currency'')"

text \<open>
  One pass of the grouping loop of the netting run over a balance that is the dump of a
  \<^verbatim>\<open>CashBalance\<close>: \<^verbatim>\<open>d[entity] = d.get(entity, 0) + balance_usd\<close>, a float addition.
\<close>

definition group_step :: "(pyval \<times> real) list \<Rightarrow> CashBalance \<Rightarrow> (pyval \<times> real) list" where
  "group_step d b =
     AList.update (PyStr (entity_code b))
       (fadd (dict_get d (PyStr (entity_code b)) 0) (balance_usd b)) d"

section \<open>Rounding to the nearest float\<close>

text \<open>
  The binary exponent brackets the magnitude of a number, \<open>nearest_float\<close> moves a
  number by at most half a unit in the last place, and \<^verbatim>\<open>round(x, 2)\<close> by at most half
  a cent more.
\<close>

lemma pow2_pos: "0 < pow2 e"
  by (simp add: pow2_def)

lemma pow2_Suc: "pow2 (e + 1) = 2 * pow2 e"
proof (cases "0 \<le> e")
  case True
  then show ?thesis by (simp add: pow2_def nat_add_distrib)
next
  case False
  then have "nat (- e) = Suc (nat (- (e + 1)))" by simp
  with False show ?thesis by (simp add: pow2_def)
qed

lemma pow2_pred: "pow2 (e - 1) = pow2 e / 2"
  using pow2_Suc[of "e - 1"] by simp

lemma pow2_le_one: "e \<le> 0 \<Longrightarrow> pow2 e \<le> 1"
  by (cases "e = 0") (simp_all add: pow2_def field_simps)

lemma expo_up_spec: "1 \<le> x \<Longrightarrow> pow2 (expo_up x) \<le> x \<and> x < pow2 (expo_up x + 1)"
proof (induction x rule: expo_up.induct)
  case (1 x)
  show ?case
  proof (cases "x < 2")
    case True
    with "1.prems" show ?thesis by (simp add: expo_up.simps pow2_def)
  next
    case False
    then have "1 \<le> x / 2" by simp
    with "1.IH" False have ih: "pow2 (expo_up (x / 2)) \<le> x / 2 \<and> x / 2 < pow2 (expo_up (x / 2) + 1)"
      by simp
    have e: "expo_up x = expo_up (x / 2) + 1"
      using False by (simp add: expo_up.simps[of x])
    have "pow2 (expo_up (x / 2) + 1) = 2 * pow2 (expo_up (x / 2))"
      and "pow2 (expo_up (x / 2) + 1 + 1) = 2 * pow2 (expo_up (x / 2) + 1)"
      by (rule pow2_Suc)+
    with ih show ?thesis
      unfolding e by linarith
  qed
qed

lemma expo_down_spec: "0 < x \<Longrightarrow> x < 1 \<Longrightarrow> pow2 (expo_down x) \<le> x \<and> x < pow2 (expo_down x + 1)"
proof (induction x rule: expo_down.induct)
  case (1 x)
  show ?case
  proof (cases "1 \<le> x * 2")
    case True
    then have "expo_down (x * 2) = 0" by (simp add: expo_down.simps[of "x * 2"])
    with "1.prems" True show ?thesis
      by (simp add: expo_down.simps[of x] pow2_def)
  next
    case False
    with "1.prems" "1.IH" have ih: "pow2 (expo_down (x * 2)) \<le> x * 2 \<and> x * 2 < pow2 (expo_down (x * 2) + 1)"
      by simp
    have e: "expo_down x = expo_down (x * 2) - 1"
      using "1.prems" by (simp add: expo_down.simps[of x])
    have "pow2 (expo_down (x * 2) - 1) = pow2 (expo_down (x * 2)) / 2"
      by (rule pow2_pred)
    moreover have "pow2 (expo_down (x * 2) + 1) = 2 * pow2 (expo_down (x * 2))"
      by (rule pow2_Suc)
    moreover have "expo_down (x * 2) - 1 + 1 = expo_down (x * 2)" by simp
    ultimately show ?thesis
      unfolding e using ih by simp
  qed
qed

lemma expo_spec: "x \<noteq> 0 \<Longrightarrow> pow2 (expo x) \<le> \<bar>x\<bar> \<and> \<bar>x\<bar> < pow2 (expo x + 1)"
  using expo_up_spec[of "\<bar>x\<bar>"] expo_down_spec[of "\<bar>x\<bar>"] by (simp add: expo_def)

lemma round_half_even_close: "\<bar>of_int (round_half_even y) - y\<bar> \<le> 1 / 2"
  unfolding round_half_even_def Let_def by (auto simp: abs_if) linarith+

lemma round_half_even_ge:
  assumes "of_int n \<le> y"
  shows "n \<le> round_half_even y"
proof -
  have "n \<le> \<lfloor>y\<rfloor>" using assms by (simp add: le_floor_iff)
  then show ?thesis
    unfolding round_half_even_def Let_def by auto
qed

lemma nearest_float_error_pow:
  "\<bar>nearest_float x - x\<bar> \<le> \<bar>x\<bar> / 2 ^ 53 + 1 / 2 ^ 1075"
proof (cases "x = 0")
  case True
  then show ?thesis by (simp add: nearest_float_def)
next
  case False
  define e where "e = max (expo x) (- 1022)"
  define ulp where "ulp = pow2 (e - 52)"
  have up: "0 < ulp" by (simp add: ulp_def pow2_pos)
  have nf: "nearest_float x = of_int (round_half_even (x / ulp)) * ulp"
    using False by (simp add: nearest_float_def Let_def ulp_def e_def)
  have "\<bar>of_int (round_half_even (x / ulp)) - x / ulp\<bar> \<le> 1 / 2"
    by (rule round_half_even_close)
  then have "\<bar>of_int (round_half_even (x / ulp)) - x / ulp\<bar> * ulp \<le> 1 / 2 * ulp"
    using up by (simp only: mult_le_cancel_right_pos)
  moreover have "\<bar>of_int (round_half_even (x / ulp)) - x / ulp\<bar> * ulp
        = \<bar>of_int (round_half_even (x / ulp)) * ulp - x\<bar>"
  proof -
    have "\<bar>of_int (round_half_even (x / ulp)) - x / ulp\<bar> * ulp
        = \<bar>(of_int (round_half_even (x / ulp)) - x / ulp) * ulp\<bar>"
      using up by (simp add: abs_mult)
    also have "(of_int (round_half_even (x / ulp)) - x / ulp) * ulp
        = of_int (round_half_even (x / ulp)) * ulp - x"
      using up by (simp add: algebra_simps)
    finally show ?thesis .
  qed
  ultimately have half: "\<bar>nearest_float x - x\<bar> \<le> ulp / 2"
    by (simp add: nf)
  have "ulp / 2 \<le> \<bar>x\<bar> / 2 ^ 53 + 1 / 2 ^ 1075"
  proof (cases "- 1022 \<le> expo x")
    case True
    then have "e = expo x" by (simp add: e_def)
    have p: "pow2 (expo x - 52) = pow2 (expo x) / 2 ^ 52"
    proof -
      have "\<And>n. pow2 (expo x - int n) = pow2 (expo x) / 2 ^ n"
      proof -
        fix n show "pow2 (expo x - int n) = pow2 (expo x) / 2 ^ n"
        proof (induction n)
          case 0 then show ?case by simp
        next
          case (Suc n)
          have "pow2 (expo x - int (Suc n)) = pow2 ((expo x - int n) - 1)" by (simp add: algebra_simps)
          also have "\<dots> = pow2 (expo x - int n) / 2" by (rule pow2_pred)
          finally show ?case using Suc by simp
        qed
      qed
      from this[of 52] show ?thesis by simp
    qed
    have "pow2 (expo x) \<le> \<bar>x\<bar>" using expo_spec[OF False] by simp
    then have "ulp / 2 \<le> \<bar>x\<bar> / 2 ^ 53"
      unfolding ulp_def \<open>e = expo x\<close> p by simp
    then show ?thesis by simp
  next
    case False
    then have "e = - 1022" by (simp add: e_def)
    then have "ulp = 1 / 2 ^ 1074" by (simp add: ulp_def pow2_def)
    then show ?thesis by simp
  qed
  with half show ?thesis by simp
qed

lemma nearest_float_error:
  "\<bar>nearest_float x - x\<bar> \<le> \<bar>x\<bar> * float_eps + float_tiny"
  using nearest_float_error_pow[of x] by (simp add: float_eps_def float_tiny_def)

lemma float_eps_nonneg: "0 \<le> float_eps"
  by (simp add: float_eps_def)

lemma nearest_float_pos:
  assumes "1 \<le> x"
  shows "0 < nearest_float x"
proof -
  from assms have nz: "x \<noteq> 0" by simp
  have "1 \<le> \<bar>x\<bar>" using assms by simp
  then have e0: "0 \<le> expo x"
  proof -
    have "\<bar>x\<bar> < pow2 (expo x + 1)" using expo_spec[OF nz] by simp
    with \<open>1 \<le> \<bar>x\<bar>\<close> have "1 < pow2 (expo x + 1)" by simp
    then have "\<not> expo x + 1 \<le> 0" using pow2_le_one[of "expo x + 1"] by auto
    then show ?thesis by simp
  qed
  define ulp where "ulp = pow2 (max (expo x) (- 1022) - 52)"
  have up: "0 < ulp" by (simp add: ulp_def pow2_pos)
  have "ulp \<le> pow2 (expo x)"
  proof -
    have "max (expo x) (- 1022) = expo x" using e0 by simp
    moreover have "\<And>n. pow2 (expo x - int n) \<le> pow2 (expo x)"
    proof -
      fix n show "pow2 (expo x - int n) \<le> pow2 (expo x)"
      proof (induction n)
        case 0 then show ?case by simp
      next
        case (Suc n)
        have "pow2 (expo x - int (Suc n)) = pow2 ((expo x - int n) - 1)" by (simp add: algebra_simps)
        also have "\<dots> = pow2 (expo x - int n) / 2" by (rule pow2_pred)
        also have "\<dots> \<le> pow2 (expo x - int n)" using pow2_pos[of "expo x - int n"] by simp
        finally show ?case using Suc by simp
      qed
    qed
    from this[of 52] have "pow2 (expo x - 52) \<le> pow2 (expo x)" by simp
    ultimately show ?thesis by (simp add: ulp_def)
  qed
  also have "\<dots> \<le> x" using expo_spec[OF nz] assms by simp
  finally have "1 \<le> x / ulp" using up by simp
  then have "of_int 1 \<le> x / ulp" by simp
  then have "1 \<le> round_half_even (x / ulp)" by (rule round_half_even_ge)
  then have "0 < of_int (round_half_even (x / ulp)) * ulp" using up by simp
  then show ?thesis using nz by (simp add: nearest_float_def Let_def ulp_def)
qed

lemma py_round_pos:
  assumes "100000 < x"
  shows "0 < py_round x 2"
proof -
  have "of_int 10000000 \<le> x * 100" using assms by simp
  then have "10000000 \<le> round_half_even (x * 100)" by (rule round_half_even_ge)
  then have "real_of_int 10000000 \<le> of_int (round_half_even (x * 100))"
    by (simp only: of_int_le_iff)
  then have "(1::real) \<le> real_of_int (round_half_even (x * 100)) / 100" by simp
  then have "0 < nearest_float (real_of_int (round_half_even (x * 100)) / 100)"
    by (rule nearest_float_pos)
  then show ?thesis by (simp add: py_round_def)
qed

lemma py_round_error:
  "\<bar>py_round x 2 - x\<bar> \<le> 1 / 200 + (\<bar>x\<bar> + 1 / 200) * float_eps + float_tiny"
proof -
  define c where "c = of_int (round_half_even (x * 100)) / (100::real)"
  have "\<bar>of_int (round_half_even (x * 100)) - x * 100\<bar> \<le> 1 / 2"
    by (rule round_half_even_close)
  then have "\<bar>(of_int (round_half_even (x * 100)) - x * 100) / 100\<bar> \<le> (1 / 2) / 100"
    by (simp only: abs_divide) simp
  then have cx: "\<bar>c - x\<bar> \<le> 1 / 200"
    by (simp add: c_def diff_divide_distrib)
  then have "\<bar>c\<bar> \<le> \<bar>x\<bar> + 1 / 200" by linarith
  then have "\<bar>c\<bar> * float_eps \<le> (\<bar>x\<bar> + 1 / 200) * float_eps"
    using float_eps_nonneg by (rule mult_right_mono)
  moreover have "\<bar>nearest_float c - c\<bar> \<le> \<bar>c\<bar> * float_eps + float_tiny"
    by (rule nearest_float_error)
  moreover have "py_round x 2 = nearest_float c"
    by (simp add: py_round_def c_def)
  ultimately show ?thesis using cx by linarith
qed

lemma foldl_fadd_error:
  "\<bar>foldl fadd acc xs - (acc + sum_list xs)\<bar>
     \<le> sum_list (map (\<lambda>s. \<bar>s\<bar> * float_eps + float_tiny) (rounded_sums acc xs))"
proof (induction xs arbitrary: acc)
  case Nil
  then show ?case by simp
next
  case (Cons x xs)
  have "\<bar>fadd acc x - (acc + x)\<bar> \<le> \<bar>acc + x\<bar> * float_eps + float_tiny"
    unfolding fadd_def by (rule nearest_float_error)
  with Cons[of "fadd acc x"] show ?case by simp
qed

lemma sum_left_to_right_error:
  "\<bar>sum_left_to_right xs - sum_list xs\<bar>
     \<le> sum_list (map (\<lambda>s. \<bar>s\<bar> * float_eps + float_tiny) (rounded_sums 0 xs))"
  using foldl_fadd_error[of 0 xs] by (simp add: sum_left_to_right_def)

text \<open>The equations that evaluate the arithmetic on numerals.\<close>

lemmas float_eval = nearest_float_def expo_def expo_up.simps expo_down.simps pow2_def
  round_half_even_def Let_def fadd_def fsub_def fmul_def fdiv_def py_round_def

section \<open>The duplicate check\<close>

lemma duplicates_card:
  "duplicates balances
     = int (length balances)
       - int (card ((\<lambda>b. (get b ''account_number'', get b ''balance_date'')) ` set balances))"
  by (simp add: duplicates_def length_remdups_card_conv account_dates_def)

lemma duplicates_one_shared:
  assumes "distinct (map (\<lambda>b. (get b ''account_number'', get b ''balance_date'')) (xs @ ys))"
    and "(get b ''account_number'', get b ''balance_date'')
           \<in> (\<lambda>b. (get b ''account_number'', get b ''balance_date'')) ` set (xs @ ys)"
  shows "duplicates (xs @ b # ys) = 1"
proof -
  let ?key = "\<lambda>b. (get b ''account_number'', get b ''balance_date'')"
  have same: "?key ` set (xs @ b # ys) = ?key ` set (xs @ ys)"
    using assms(2) by auto
  have "card (?key ` set (xs @ ys)) = length (xs @ ys)"
    using distinct_card[OF assms(1)] by (simp add: image_Un)
  then show ?thesis
    unfolding duplicates_card same by simp
qed

lemma filter_duplicate_missing:
  "filter (\<lambda>l. check_type l = ''duplicate'') (missing_check today balances) = []"
  by (simp add: missing_check_def)

lemma filter_duplicate_negative:
  "filter (\<lambda>l. check_type l = ''duplicate'') (negative_log today n) = []"
  by (simp add: negative_log_def)

lemma filter_duplicate_duplicate:
  "filter (\<lambda>l. check_type l = ''duplicate'') (duplicate_check today balances)
     = duplicate_check today balances"
  by (simp add: duplicate_check_def)

lemma validate_data_duplicate_part:
  "validate_data today balances = Inr logs \<Longrightarrow>
   filter (\<lambda>l. check_type l = ''duplicate'') logs = duplicate_check today balances"
  by (auto simp: validate_data_def bind_def filter_duplicate_missing filter_duplicate_negative
      filter_duplicate_duplicate split: sum.splits)

text \<open>
  The block of the duplicate check, lines 162 to 173, taken alone: it counts
  \<open>len(records) - len(distinct (account_number, balance_date) pairs)\<close>, a missing field
  counting as null; it emits one log, of severity High and status Open and with that
  count as its affected records, exactly when the count is at least 1, and nothing
  otherwise; whenever \<open>validate_data\<close> returns, its duplicate log is this one. Two
  records sharing a pair, among records whose pairs are otherwise distinct, give the
  count 1 however many other records there are.
\<close>

lemma duplicate_check_reports:
  "duplicates balances
     = int (length balances)
       - int (card ((\<lambda>b. (get b ''account_number'', get b ''balance_date'')) ` set balances))
   \<and> (length (duplicate_check today balances) = 1 \<longleftrightarrow> 1 \<le> duplicates balances)
   \<and> (duplicate_check today balances = [] \<longleftrightarrow> duplicates balances < 1)
   \<and> (\<forall>l \<in> set (duplicate_check today balances).
         check_type l = ''duplicate'' \<and> severity l = ''High'' \<and> ValidationLog.status l = ''Open''
         \<and> affected_records l = duplicates balances)
   \<and> (\<forall>logs. validate_data today balances = Inr logs \<longrightarrow>
         filter (\<lambda>l. check_type l = ''duplicate'') logs = duplicate_check today balances)
   \<and> (distinct (map (\<lambda>b. (get b ''account_number'', get b ''balance_date'')) (xs @ ys))
        \<and> (get b ''account_number'', get b ''balance_date'')
             \<in> (\<lambda>b. (get b ''account_number'', get b ''balance_date'')) ` set (xs @ ys)
        \<longrightarrow> duplicates (xs @ b # ys) = 1)"
proof (intro conjI allI impI)
  show "duplicates balances
     = int (length balances)
       - int (card ((\<lambda>b. (get b ''account_number'', get b ''balance_date'')) ` set balances))"
    by (rule duplicates_card)
  show "length (duplicate_check today balances) = 1 \<longleftrightarrow> 1 \<le> duplicates balances"
    by (simp add: duplicate_check_def)
  show "duplicate_check today balances = [] \<longleftrightarrow> duplicates balances < 1"
    by (simp add: duplicate_check_def)
  show "\<forall>l \<in> set (duplicate_check today balances).
         check_type l = ''duplicate'' \<and> severity l = ''High'' \<and> ValidationLog.status l = ''Open''
         \<and> affected_records l = duplicates balances"
    by (simp add: duplicate_check_def)
next
  fix logs
  assume "validate_data today balances = Inr logs"
  then show "filter (\<lambda>l. check_type l = ''duplicate'') logs = duplicate_check today balances"
    by (rule validate_data_duplicate_part)
next
  assume "distinct (map (\<lambda>b. (get b ''account_number'', get b ''balance_date'')) (xs @ ys))
        \<and> (get b ''account_number'', get b ''balance_date'')
             \<in> (\<lambda>b. (get b ''account_number'', get b ''balance_date'')) ` set (xs @ ys)"
  then show "duplicates (xs @ b # ys) = 1"
    using duplicates_one_shared by blast
qed

text \<open>
  Four records: account A1 on two dates, account A2 on the first date, and A1 on the
  first date again. Only the last repeats a pair: the count is 1, where counting by
  account alone or by date alone would give 2, and the validation returns the one
  duplicate log.
\<close>

lemma duplicate_check_four_records:
  "validate_data ''2024-01-03T00:00:00+00:00''
     [[''account_number'' \<mapsto> PyStr ''A1'', ''balance_date'' \<mapsto> PyStr ''2024-01-01'',
       ''balance_local'' \<mapsto> PyNum 5],
      [''account_number'' \<mapsto> PyStr ''A1'', ''balance_date'' \<mapsto> PyStr ''2024-01-02'',
       ''balance_local'' \<mapsto> PyNum 5],
      [''account_number'' \<mapsto> PyStr ''A2'', ''balance_date'' \<mapsto> PyStr ''2024-01-01'',
       ''balance_local'' \<mapsto> PyNum 5],
      [''account_number'' \<mapsto> PyStr ''A1'', ''balance_date'' \<mapsto> PyStr ''2024-01-01'',
       ''balance_local'' \<mapsto> PyNum 7]]
   = Inr [\<lparr>check_date = ''2024-01-03T00:00:00+00:00'', check_type = ''duplicate'',
           severity = ''High'',
           description = ''Found 1 duplicate account-date combinations'',
           affected_records = 1, ValidationLog.status = ''Open''\<rparr>]"
  by (simp add: validate_data_def bind_def get_default_def get_def missing_check_def
      missing_count_def is_missing_def negative_log_def duplicate_check_def duplicates_def
      account_dates_def str_int_def str_nat.simps digit_char_def)

text \<open>
  Claim C9. For every snapshot the validation is to report the duplicate count in one
  log when the count is at least 1. The four records above, the first with a null
  \<open>balance_local\<close>: the count of the duplicate check is 1, but the negative-cash check,
  which runs before it, compares \<^verbatim>\<open>None < 0\<close> and raises TypeError, so the validation
  returns no log and the duplicate is not reported.
\<close>

theorem validate_data_duplicate_with_null_raises:
  "duplicates
     [[''account_number'' \<mapsto> PyStr ''A1'', ''balance_date'' \<mapsto> PyStr ''2024-01-01'',
       ''balance_local'' \<mapsto> PyNone],
      [''account_number'' \<mapsto> PyStr ''A1'', ''balance_date'' \<mapsto> PyStr ''2024-01-02'',
       ''balance_local'' \<mapsto> PyNum 5],
      [''account_number'' \<mapsto> PyStr ''A2'', ''balance_date'' \<mapsto> PyStr ''2024-01-01'',
       ''balance_local'' \<mapsto> PyNum 5],
      [''account_number'' \<mapsto> PyStr ''A1'', ''balance_date'' \<mapsto> PyStr ''2024-01-01'',
       ''balance_local'' \<mapsto> PyNum 7]] = 1
   \<and> validate_data ''2024-01-03T00:00:00+00:00''
     [[''account_number'' \<mapsto> PyStr ''A1'', ''balance_date'' \<mapsto> PyStr ''2024-01-01'',
       ''balance_local'' \<mapsto> PyNone],
      [''account_number'' \<mapsto> PyStr ''A1'', ''balance_date'' \<mapsto> PyStr ''2024-01-02'',
       ''balance_local'' \<mapsto> PyNum 5],
      [''account_number'' \<mapsto> PyStr ''A2'', ''balance_date'' \<mapsto> PyStr ''2024-01-01'',
       ''balance_local'' \<mapsto> PyNum 5],
      [''account_number'' \<mapsto> PyStr ''A1'', ''balance_date'' \<mapsto> PyStr ''2024-01-01'',
       ''balance_local'' \<mapsto> PyNum 7]] = Inl TypeError"
  by (simp add: validate_data_def bind_def get_default_def get_def duplicates_def
      account_dates_def)

section \<open>Totality of the validation\<close>

text \<open>
  On a snapshot whose records have a number as \<open>balance_local\<close>, or lack the field,
  the validation returns the logs of its three checks.
\<close>

lemma negative_count_numeric:
  assumes "\<forall>b \<in> set balances. b ''balance_local'' = None \<or> (\<exists>x. b ''balance_local'' = Some (PyNum x))"
  shows "negative_count balances
     = Inr (int (length (filter (\<lambda>b. \<exists>x. b ''balance_local'' = Some (PyNum x) \<and> x < 0) balances)))"
  using assms by (induction balances) (auto simp: bind_def get_default_def)

lemma validate_data_returns:
  assumes "\<forall>b \<in> set balances. b ''balance_local'' = None \<or> (\<exists>x. b ''balance_local'' = Some (PyNum x))"
  shows "validate_data today balances
     = Inr (missing_check today balances
            @ negative_log today
                (int (length (filter (\<lambda>b. \<exists>x. b ''balance_local'' = Some (PyNum x) \<and> x < 0) balances)))
            @ duplicate_check today balances)"
  by (simp add: validate_data_def negative_count_numeric[OF assms] bind_def)

text \<open>
  Claim C4. \<open>validate_data\<close> is to return its logs for every snapshot, also one with a
  record whose \<open>balance_local\<close> is null. On such a record the negative-cash check compares
  \<^verbatim>\<open>None < 0\<close>: the default of \<^verbatim>\<open>b.get('balance_local', 0)\<close> stands in for a missing
  field only, not for a field that holds null, and the function raises TypeError.
\<close>

theorem validate_data_null_balance_raises:
  "validate_data ''2024-01-03T00:00:00+00:00''
     [[''account_number'' \<mapsto> PyStr ''A1'', ''balance_date'' \<mapsto> PyStr ''2024-01-02'',
       ''balance_local'' \<mapsto> PyNone]] = Inl TypeError"
  by (simp add: validate_data_def bind_def get_default_def)

section \<open>The rate lookup\<close>

lemma find_one_None: "find_one k v docs = None \<longleftrightarrow> (\<forall>d \<in> set docs. d k \<noteq> Some v)"
  by (auto simp: find_one_def find_None_iff)

lemma find_one_first:
  "\<forall>p \<in> set pre. p k \<noteq> Some v \<Longrightarrow> d k = Some v \<Longrightarrow> find_one k v (pre @ d # post) = Some d"
  by (induction pre) (auto simp: find_one_def)

text \<open>
  Claim C8. The rate of a currency to itself is 1, so converting an amount into its own
  currency (multiplying it by the rate) leaves it as it is. For two different currencies
  the lookup returns the rate of the first stored document for the pair \<open>from/to\<close>; with
  no such document, the rate of the default table of seven pairs; and 1 for a pair that
  is in neither. For a pair that is not stored it never raises.
\<close>

theorem get_fx_rate_lookup:
  "get_fx_rate s c c = Inr (PyNum 1)
   \<and> (\<exists>r. get_fx_rate s c c = Inr (PyNum r) \<and> (\<forall>amount. amount * r = amount))
   \<and> (f \<noteq> t \<and> fx_rates s = pre @ d # post
        \<and> (\<forall>p \<in> set pre. p ''currency_pair'' \<noteq> Some (PyStr (f @ ''/'' @ t)))
        \<and> d ''currency_pair'' = Some (PyStr (f @ ''/'' @ t)) \<and> d ''rate'' = Some r
        \<longrightarrow> get_fx_rate s f t = Inr r)
   \<and> (f \<noteq> t \<and> (\<forall>p \<in> set (fx_rates s). p ''currency_pair'' \<noteq> Some (PyStr (f @ ''/'' @ t)))
        \<longrightarrow> get_fx_rate s f t =
              Inr (PyNum (case map_of default_rates (f @ ''/'' @ t) of Some x \<Rightarrow> x | None \<Rightarrow> 1)))
   \<and> (f \<noteq> t \<and> (\<forall>p \<in> set (fx_rates s). p ''currency_pair'' \<noteq> Some (PyStr (f @ ''/'' @ t)))
        \<and> f @ ''/'' @ t \<notin> set (map fst default_rates)
        \<longrightarrow> get_fx_rate s f t = Inr (PyNum 1))
   \<and> map fst default_rates =
        [''EUR/USD'', ''GBP/USD'', ''SGD/USD'', ''JPY/USD'', ''CNY/USD'', ''INR/USD'', ''AUD/USD'']"
proof (intro conjI impI)
  show "get_fx_rate s c c = Inr (PyNum 1)"
    by (simp add: get_fx_rate_def)
  then show "\<exists>r. get_fx_rate s c c = Inr (PyNum r) \<and> (\<forall>amount. amount * r = amount)"
    by simp
next
  assume a: "f \<noteq> t \<and> fx_rates s = pre @ d # post
        \<and> (\<forall>p \<in> set pre. p ''currency_pair'' \<noteq> Some (PyStr (f @ ''/'' @ t)))
        \<and> d ''currency_pair'' = Some (PyStr (f @ ''/'' @ t)) \<and> d ''rate'' = Some r"
  then have "find_one ''currency_pair'' (PyStr (f @ ''/'' @ t)) (fx_rates s) = Some d"
    using find_one_first[of pre "''currency_pair''" "PyStr (f @ ''/'' @ t)" d post] by simp
  with a show "get_fx_rate s f t = Inr r"
    by (simp add: get_fx_rate_def getitem_def)
next
  assume a: "f \<noteq> t \<and> (\<forall>p \<in> set (fx_rates s). p ''currency_pair'' \<noteq> Some (PyStr (f @ ''/'' @ t)))"
  then have "find_one ''currency_pair'' (PyStr (f @ ''/'' @ t)) (fx_rates s) = None"
    by (simp add: find_one_None)
  with a show "get_fx_rate s f t =
              Inr (PyNum (case map_of default_rates (f @ ''/'' @ t) of Some x \<Rightarrow> x | None \<Rightarrow> 1))"
    by (simp add: get_fx_rate_def)
next
  assume a: "f \<noteq> t \<and> (\<forall>p \<in> set (fx_rates s). p ''currency_pair'' \<noteq> Some (PyStr (f @ ''/'' @ t)))
        \<and> f @ ''/'' @ t \<notin> set (map fst default_rates)"
  then have "find_one ''currency_pair'' (PyStr (f @ ''/'' @ t)) (fx_rates s) = None"
    by (simp add: find_one_None)
  moreover from a have "map_of default_rates (f @ ''/'' @ t) = None"
    by (simp add: map_of_eq_None_iff)
  ultimately show "get_fx_rate s f t = Inr (PyNum 1)"
    using a by (simp add: get_fx_rate_def)
next
  show "map fst default_rates =
        [''EUR/USD'', ''GBP/USD'', ''SGD/USD'', ''JPY/USD'', ''CNY/USD'', ''INR/USD'', ''AUD/USD'']"
    by (simp add: default_rates_def)
qed

text \<open>
  A store holding a rate for GBP/USD and then one for EUR/USD: EUR to USD is the stored
  1.08. An empty rate collection: JPY to USD is the default, the float 0.0067, and the
  unknown CHF to USD is 1.
\<close>

theorem get_fx_rate_lookup_witness:
  "get_fx_rate \<lparr>cash_balances = [],
                 fx_rates = [[''currency_pair'' \<mapsto> PyStr ''GBP/USD'', ''rate'' \<mapsto> PyNum (125 / 100)],
                             [''currency_pair'' \<mapsto> PyStr ''EUR/USD'', ''rate'' \<mapsto> PyNum (108 / 100)]],
                 cash_pools = [], netting_results = [], validation_logs = []\<rparr> ''EUR'' ''USD''
     = Inr (PyNum (108 / 100))
   \<and> get_fx_rate \<lparr>cash_balances = [], fx_rates = [], cash_pools = [], netting_results = [],
                   validation_logs = []\<rparr> ''JPY'' ''USD''
       = Inr (PyNum (nearest_float (67 / 10000)))
   \<and> get_fx_rate \<lparr>cash_balances = [], fx_rates = [], cash_pools = [], netting_results = [],
                   validation_logs = []\<rparr> ''CHF'' ''USD'' = Inr (PyNum 1)"
  using get_fx_rate_lookup
      [of "\<lparr>cash_balances = [],
             fx_rates = [[''currency_pair'' \<mapsto> PyStr ''GBP/USD'', ''rate'' \<mapsto> PyNum (125 / 100)],
                         [''currency_pair'' \<mapsto> PyStr ''EUR/USD'', ''rate'' \<mapsto> PyNum (108 / 100)]],
             cash_pools = [], netting_results = [], validation_logs = []\<rparr>"
          "''USD''" "''EUR''" "''USD''"
          "[[''currency_pair'' \<mapsto> PyStr ''GBP/USD'', ''rate'' \<mapsto> PyNum (125 / 100)]]"
          "[''currency_pair'' \<mapsto> PyStr ''EUR/USD'', ''rate'' \<mapsto> PyNum (108 / 100)]"
          "[]" "PyNum (108 / 100)"]
    get_fx_rate_lookup
      [of "\<lparr>cash_balances = [], fx_rates = [], cash_pools = [], netting_results = [],
             validation_logs = []\<rparr>" "''USD''" "''JPY''" "''USD''"]
    get_fx_rate_lookup
      [of "\<lparr>cash_balances = [], fx_rates = [], cash_pools = [], netting_results = [],
             validation_logs = []\<rparr>" "''USD''" "''CHF''" "''USD''"]
  by (simp add: default_rates_def)

section \<open>Empty snapshots\<close>

lemma global_position_empty:
  "get_global_position sum_float (s\<lparr>cash_balances := []\<rparr>) =
     Inr (Obj [(PyStr ''total_liquidity_usd'', JNum 0), (PyStr ''by_region'', Obj []),
               (PyStr ''by_currency'', Obj []), (PyStr ''total_accounts'', JNum 0)])"
  by (simp add: get_global_position_def to_list_def)

text \<open>
  Claim C5. With no balances the global position is the zero-valued response (lemma
  \<open>global_position_empty\<close>). The regional position of a region without balances is a
  response with total 0 and an empty currency map, but its \<^verbatim>\<open>entities\<close> is an empty
  list, and it has no \<^verbatim>\<open>account_count\<close> at all, where the response for a region with
  balances has the count of its records.
\<close>

theorem regional_liquidity_empty_response:
  "get_regional_liquidity sum_float (s\<lparr>cash_balances := []\<rparr>) ''APAC'' =
     Inr (Obj [(PyStr ''region'', JStr ''APAC''), (PyStr ''total_usd'', JNum 0),
               (PyStr ''entities'', Arr []), (PyStr ''currencies'', Obj [])])
   \<and> field (Obj [(PyStr ''region'', JStr ''APAC''), (PyStr ''total_usd'', JNum 0),
                 (PyStr ''entities'', Arr []), (PyStr ''currencies'', Obj [])])
        ''account_count'' = None"
  by (simp add: get_regional_liquidity_def to_list_def)

text \<open>
  Claim C1. On a store without balances the netting run is to return an empty result.
  The code groups no entity, divides the sum 0 by the length 0 and leaves as an HTTP 500
  carrying the ZeroDivisionError, after the deletion of the earlier results.
\<close>

theorem run_netting_empty_raises:
  "run_netting sum_float rnd today (s\<lparr>cash_balances := []\<rparr>) =
     ([Delete_netting_results, Find_cash_balances], Inl (HTTP500 ZeroDivisionError))"
  by (simp add: run_netting_def to_list_def netting_transactions_def bind_def average_def)

text \<open>
  On a non-empty snapshot that the validation returns logs for, the stored logs after
  the run are those logs.
\<close>

lemma run_validation_replaces:
  assumes "to_list 10000 (cash_balances s) \<noteq> []"
    and "validate_data today (to_list 10000 (cash_balances s)) = Inr logs"
  shows "validation_logs (apply_ops s (fst (run_validation today now s))) = logs"
  using assms by (simp add: run_validation_def apply_ops_def)

text \<open>
  Claim C3. After a validation run the stored logs are to be those of the run, also for
  the empty snapshot. On a store without balances the run returns before the deletion:
  it reports no issue and issues no write, so the logs of the run before stay stored.
\<close>

theorem run_validation_empty_keeps_logs:
  "run_validation today now (s\<lparr>cash_balances := []\<rparr>) =
     ([Find_cash_balances],
      Inr (Obj [(PyStr ''status'', JStr ''success''), (PyStr ''issues_found'', JNum 0),
                (PyStr ''validations'', Arr [])]))
   \<and> validation_logs (apply_ops (s\<lparr>cash_balances := []\<rparr>)
        (fst (run_validation today now (s\<lparr>cash_balances := []\<rparr>)))) = validation_logs s"
  by (simp add: run_validation_def to_list_def apply_ops_def)

section \<open>Sums over balance records\<close>

lemma float_values_dump:
  "float_values ''balance_usd'' (map model_dump_balance cbs) = Inr (map balance_usd cbs)"
  by (induction cbs) (simp_all add: bind_def getitem_def model_dump_balance_def)

lemma sum_usd_dump:
  "sum_usd sum_float (map model_dump_balance cbs) = Inr (sum_float (map balance_usd cbs))"
  by (simp add: sum_usd_def float_values_dump bind_def)

section \<open>Pool status\<close>




lemma efficiency_23_of_160:
  "py_round (min 100 (fmul (fdiv 23 160) 100)) 2 = nearest_float (1437 / 100)"
proof -
  have q: "fdiv 23 160 = 2589569785738035 / 18014398509481984"
    by (simp add: float_eval)
  have p: "fmul (2589569785738035 / 18014398509481984) 100
      = 8092405580431359 / 562949953421312"
    by (simp add: float_eval)
  have m: "min 100 (8092405580431359 / 562949953421312) = (8092405580431359 / 562949953421312 :: real)"
    by simp
  have "py_round (8092405580431359 / 562949953421312) 2 = nearest_float (1437 / 100)"
    by (simp add: float_eval)
  then show ?thesis
    unfolding q p m .
qed




section \<open>Pool calculation\<close>

lemma participants_loop_dump:
  "participants_loop avg (map model_dump_balance cbs) =
     Inr (map (\<lambda>b. Obj [(PyStr ''account'', JStr (account_number b)),
                        (PyStr ''entity'', JStr (entity_code b)),
                        (PyStr ''balance_usd'', JNum (balance_usd b)),
                        (PyStr ''variance_from_avg'', JNum (py_round (fsub (balance_usd b) avg) 2)),
                        (PyStr ''status'',
                           JStr (if fsub (balance_usd b) avg > 0 then ''Surplus'' else ''Deficit''))]) cbs)"
  by (induction cbs) (simp_all add: bind_def getitem_def model_dump_balance_def Let_def)

lemma numbers_map_Obj:
  "numbers k (map (\<lambda>b. Obj (kvs b)) cbs)
     = concat (map (\<lambda>b. case map_of (kvs b) (PyStr k) of Some (JNum x) \<Rightarrow> [x] | _ \<Rightarrow> []) cbs)"
  by (simp add: numbers_def comp_def)

lemma scalars_map_Obj:
  "scalars k (map (\<lambda>b. Obj (kvs b)) cbs)
     = concat (map (\<lambda>b. case map_of (kvs b) (PyStr k) of Some (Leaf v) \<Rightarrow> [v] | _ \<Rightarrow> []) cbs)"
  by (simp add: scalars_def comp_def)

lemma concat_map_single: "concat (map (\<lambda>b. [f b]) xs) = map f xs"
  by (induction xs) simp_all

lemma sum_list_shift:
  "sum_list (map (\<lambda>x. f x - c) xs) = sum_list (map f xs) - real (length xs) * c"
  by (induction xs) (simp_all add: algebra_simps)

lemma sum_list_diff_bound:
  fixes f g h :: "'a \<Rightarrow> real"
  shows "\<forall>x \<in> set xs. \<bar>f x - g x\<bar> \<le> h x \<Longrightarrow>
     \<bar>sum_list (map f xs) - sum_list (map g xs)\<bar> \<le> sum_list (map h xs)"
proof (induction xs)
  case Nil
  then show ?case by simp
next
  case (Cons x xs)
  then have "\<bar>f x - g x\<bar> \<le> h x"
    and "\<bar>sum_list (map f xs) - sum_list (map g xs)\<bar> \<le> sum_list (map h xs)" by simp_all
  then show ?case by simp
qed

lemma sum_list_add_const:
  "sum_list (map (\<lambda>x. f x + c) xs) = sum_list (map f xs) + real (length xs) * c"
  by (induction xs) (simp_all add: algebra_simps)

lemma sum_list_scale:
  "sum_list (map (\<lambda>x. f x * c) xs) = sum_list (map f xs) * (c::real)"
  by (induction xs) (simp_all add: algebra_simps)

lemma variances_sum_bound:
  assumes "cbs \<noteq> []"
    and "average_balance = fdiv total_pooled (real (length cbs))"
    and "\<bar>total_pooled - sum_list (map balance_usd cbs)\<bar> \<le> tolerance"
  shows "\<bar>sum_list (map (\<lambda>b. fsub (balance_usd b) average_balance) cbs)\<bar>
     \<le> tolerance
       + (\<bar>total_pooled\<bar> + sum_list (map (\<lambda>b. \<bar>balance_usd b - average_balance\<bar>) cbs)) * float_eps
       + 2 * real (length cbs) * float_tiny"
proof -
  let ?n = "real (length cbs)"
  let ?d = "\<lambda>b. balance_usd b - average_balance"
  have n: "0 < ?n" using assms(1) by simp
  have "\<forall>b \<in> set cbs. \<bar>fsub (balance_usd b) average_balance - ?d b\<bar> \<le> \<bar>?d b\<bar> * float_eps + float_tiny"
    unfolding fsub_def by (intro ballI) (rule nearest_float_error)
  then have "\<bar>sum_list (map (\<lambda>b. fsub (balance_usd b) average_balance) cbs) - sum_list (map ?d cbs)\<bar>
        \<le> sum_list (map (\<lambda>b. \<bar>?d b\<bar> * float_eps + float_tiny) cbs)"
    by (rule sum_list_diff_bound)
  also have "\<dots> = sum_list (map (\<lambda>b. \<bar>?d b\<bar> * float_eps) cbs) + ?n * float_tiny"
    by (rule sum_list_add_const)
  also have "sum_list (map (\<lambda>b. \<bar>?d b\<bar> * float_eps) cbs) = sum_list (map (\<lambda>b. \<bar>?d b\<bar>) cbs) * float_eps"
    by (rule sum_list_scale)
  finally have round: "\<bar>sum_list (map (\<lambda>b. fsub (balance_usd b) average_balance) cbs) - sum_list (map ?d cbs)\<bar>
        \<le> sum_list (map (\<lambda>b. \<bar>?d b\<bar>) cbs) * float_eps + ?n * float_tiny" .
  have "\<bar>average_balance - total_pooled / ?n\<bar> \<le> \<bar>total_pooled / ?n\<bar> * float_eps + float_tiny"
    unfolding assms(2) fdiv_def by (rule nearest_float_error)
  then have "\<bar>average_balance - total_pooled / ?n\<bar> * ?n
      \<le> (\<bar>total_pooled / ?n\<bar> * float_eps + float_tiny) * ?n"
    using n by (simp only: mult_le_cancel_right_pos)
  moreover have "\<bar>average_balance - total_pooled / ?n\<bar> * ?n = \<bar>?n * average_balance - total_pooled\<bar>"
  proof -
    have "\<bar>average_balance - total_pooled / ?n\<bar> * ?n = \<bar>(average_balance - total_pooled / ?n) * ?n\<bar>"
      using n by (simp add: abs_mult)
    also have "(average_balance - total_pooled / ?n) * ?n = ?n * average_balance - total_pooled"
      using n by (simp add: algebra_simps)
    finally show ?thesis .
  qed
  moreover have "(\<bar>total_pooled / ?n\<bar> * float_eps + float_tiny) * ?n
      = \<bar>total_pooled\<bar> * float_eps + ?n * float_tiny"
    using n by (simp add: algebra_simps abs_divide)
  ultimately have quot: "\<bar>?n * average_balance - total_pooled\<bar>
      \<le> \<bar>total_pooled\<bar> * float_eps + ?n * float_tiny" by simp
  have "sum_list (map ?d cbs) = sum_list (map balance_usd cbs) - ?n * average_balance"
    by (rule sum_list_shift)
  with assms(3) quot round show ?thesis
    by (simp add: algebra_simps)
qed

lemma rounded_sum_bound:
  "\<bar>sum_list (map (\<lambda>v. py_round v 2) vs)\<bar>
     \<le> \<bar>sum_list vs\<bar> + real (length vs) / 200
       + sum_list (map (\<lambda>v. \<bar>v\<bar> + 1 / 200) vs) * float_eps + real (length vs) * float_tiny"
proof -
  have "\<forall>v \<in> set vs. \<bar>py_round v 2 - v\<bar> \<le> (1 / 200 + (\<bar>v\<bar> + 1 / 200) * float_eps) + float_tiny"
    by (intro ballI) (rule py_round_error)
  then have "\<bar>sum_list (map (\<lambda>v. py_round v 2) vs) - sum_list (map (\<lambda>v. v) vs)\<bar>
      \<le> sum_list (map (\<lambda>v. (1 / 200 + (\<bar>v\<bar> + 1 / 200) * float_eps) + float_tiny) vs)"
    by (rule sum_list_diff_bound)
  also have "\<dots> = sum_list (map (\<lambda>v. 1 / 200 + (\<bar>v\<bar> + 1 / 200) * float_eps) vs)
                    + real (length vs) * float_tiny"
    by (rule sum_list_add_const)
  also have "sum_list (map (\<lambda>v. 1 / 200 + (\<bar>v\<bar> + 1 / 200) * float_eps) vs)
      = real (length vs) / 200 + sum_list (map (\<lambda>v. \<bar>v\<bar> + 1 / 200) vs) * float_eps"
    by (induction vs) (simp_all add: algebra_simps)
  finally show ?thesis by simp
qed

lemma calculate_cash_pooling_dump:
  assumes "List.find (\<lambda>p. CashPool.region p = region') (cash_pools s) = Some pool"
    and "pool_balances s pool = map model_dump_balance cbs"
    and "cbs \<noteq> []"
    and "sum_float (map balance_usd cbs) = total_pooled"
    and "fdiv total_pooled (real (length cbs)) = average_balance"
  shows "calculate_cash_pooling sum_float now s region'
      = Inr (Obj [(PyStr ''pool_name'', JStr (pool_name pool)),
                    (PyStr ''pool_type'', JStr (pool_type pool)),
                    (PyStr ''total_pooled_usd'', JNum (py_round total_pooled 2)),
                    (PyStr ''average_balance'', JNum (py_round average_balance 2)),
                    (PyStr ''participants'', Arr (map (\<lambda>b. Obj [(PyStr ''account'', JStr (account_number b)),
                        (PyStr ''entity'', JStr (entity_code b)),
                        (PyStr ''balance_usd'', JNum (balance_usd b)),
                        (PyStr ''variance_from_avg'', JNum (py_round (fsub (balance_usd b) average_balance) 2)),
                        (PyStr ''status'',
                           JStr (if fsub (balance_usd b) average_balance > 0 then ''Surplus'' else ''Deficit''))]) cbs)),
                    (PyStr ''calculation_date'', JStr now)])"
  using assms(3)
  by (simp add: calculate_cash_pooling_def assms(1,2,4,5) sum_usd_dump bind_def Let_def
      participants_loop_dump http_500_def)

text \<open>
  Claim C6, as amended. For a pool calculation over a non-empty set of balance records,
  with \<open>total_pooled\<close> the sum of the balances as the interpreter computes it and
  \<open>average_balance = total_pooled / len(balances)\<close>, a float division: the variance of a
  participant is the float difference \<open>balance_usd - average_balance\<close>, and the response
  reports it rounded to two decimals as \<^verbatim>\<open>variance_from_avg\<close>; the status is Surplus
  exactly when the variance before rounding is above 0, and Deficit otherwise, also at 0.
  The variances before rounding sum to 0 up to floating-point tolerance: the error
  \<open>tolerance\<close> of the sum of the balances, and the rounding of the division and of each
  subtraction. The reported variances sum to 0 up to half a cent for each participant
  on top of that, and the rounding of each reported value to a float. For the sum from
  the left, lemma \<open>sum_left_to_right_error\<close> gives a \<open>tolerance\<close>.
\<close>

theorem cash_pooling_variances:
  assumes "List.find (\<lambda>p. CashPool.region p = region') (cash_pools s) = Some pool"
    and "pool_balances s pool = map model_dump_balance cbs"
    and "cbs \<noteq> []"
    and "\<forall>b \<in> set cbs. is_float (balance_usd b)"
    and "total_pooled = sum_float (map balance_usd cbs)"
    and "average_balance = fdiv total_pooled (real (length cbs))"
    and "variances = map (\<lambda>b. fsub (balance_usd b) average_balance) cbs"
    and "\<bar>total_pooled - sum_list (map balance_usd cbs)\<bar> \<le> tolerance"
  shows "\<exists>resp. calculate_cash_pooling sum_float now s region' = Inr resp
     \<and> field resp ''total_pooled_usd'' = Some (JNum (py_round total_pooled 2))
     \<and> field resp ''average_balance'' = Some (JNum (py_round average_balance 2))
     \<and> scalars ''account'' (entries ''participants'' resp) = map (\<lambda>b. PyStr (account_number b)) cbs
     \<and> numbers ''variance_from_avg'' (entries ''participants'' resp)
         = map (\<lambda>v. py_round v 2) variances
     \<and> scalars ''status'' (entries ''participants'' resp)
         = map (\<lambda>v. PyStr (if v > 0 then ''Surplus'' else ''Deficit'')) variances
     \<and> \<bar>sum_list variances\<bar>
         \<le> tolerance
           + (\<bar>total_pooled\<bar> + sum_list (map (\<lambda>b. \<bar>balance_usd b - average_balance\<bar>) cbs))
             * float_eps
           + 2 * real (length cbs) * float_tiny
     \<and> \<bar>sum_list (numbers ''variance_from_avg'' (entries ''participants'' resp))\<bar>
         \<le> \<bar>sum_list variances\<bar> + real (length cbs) / 200
           + sum_list (map (\<lambda>v. \<bar>v\<bar> + 1 / 200) variances) * float_eps
           + real (length cbs) * float_tiny"
proof -
  let ?ps = "map (\<lambda>b. Obj [(PyStr ''account'', JStr (account_number b)),
                        (PyStr ''entity'', JStr (entity_code b)),
                        (PyStr ''balance_usd'', JNum (balance_usd b)),
                        (PyStr ''variance_from_avg'', JNum (py_round (fsub (balance_usd b) average_balance) 2)),
                        (PyStr ''status'',
                           JStr (if fsub (balance_usd b) average_balance > 0 then ''Surplus'' else ''Deficit''))]) cbs"
  let ?resp = "Obj [(PyStr ''pool_name'', JStr (pool_name pool)),
                    (PyStr ''pool_type'', JStr (pool_type pool)),
                    (PyStr ''total_pooled_usd'', JNum (py_round total_pooled 2)),
                    (PyStr ''average_balance'', JNum (py_round average_balance 2)),
                    (PyStr ''participants'', Arr ?ps),
                    (PyStr ''calculation_date'', JStr now)]"
  have r: "calculate_cash_pooling sum_float now s region' = Inr ?resp"
    using assms(3)
    by (simp add: calculate_cash_pooling_def assms(1,2,5,6) sum_usd_dump bind_def Let_def
        participants_loop_dump http_500_def)
  have e: "entries ''participants'' ?resp = ?ps"
    by (simp add: entries_def)
  have n: "numbers ''variance_from_avg'' ?ps = map (\<lambda>v. py_round v 2) variances"
    by (simp add: numbers_map_Obj concat_map_single assms(7) comp_def)
  have a: "scalars ''account'' ?ps = map (\<lambda>b. PyStr (account_number b)) cbs"
    by (simp add: scalars_map_Obj concat_map_single)
  have st: "scalars ''status'' ?ps
         = map (\<lambda>v. PyStr (if v > 0 then ''Surplus'' else ''Deficit'')) variances"
    by (simp add: scalars_map_Obj concat_map_single assms(7) comp_def)
  have z: "\<bar>sum_list variances\<bar>
         \<le> tolerance
           + (\<bar>total_pooled\<bar> + sum_list (map (\<lambda>b. \<bar>balance_usd b - average_balance\<bar>) cbs))
             * float_eps
           + 2 * real (length cbs) * float_tiny"
    unfolding assms(7) using assms(3,6,8) by (rule variances_sum_bound)
  have b: "\<bar>sum_list (numbers ''variance_from_avg'' ?ps)\<bar>
         \<le> \<bar>sum_list variances\<bar> + real (length cbs) / 200
           + sum_list (map (\<lambda>v. \<bar>v\<bar> + 1 / 200) variances) * float_eps
           + real (length cbs) * float_tiny"
    unfolding n using rounded_sum_bound[of variances] by (simp add: assms(7))
  show ?thesis
    apply (rule exI[of _ ?resp])
    apply (intro conjI)
           apply (rule r)
          apply simp
         apply simp
        apply (simp only: e a)
       apply (simp only: e n)
      apply (simp only: e st)
     apply (rule z)
    apply (simp only: e)
    apply (rule b)
    done
qed

text \<open>Three balances of 10, 20 and 60: the average is 30, the variances -20, -10 and 30.\<close>

theorem cash_pooling_variances_witness:
  "map_sum id (\<lambda>resp. numbers ''variance_from_avg'' (entries ''participants'' resp))
     (calculate_cash_pooling sum_left_to_right ''2024-01-03T00:00:00+00:00''
        \<lparr>cash_balances = map model_dump_balance
           [\<lparr>account_number = ''A'', balance_date = ''2024-01-02'', CashBalance.currency = ''USD'',
             balance_local = 10, balance_usd = 10, entity_code = ''E1'', CashBalance.region = ''APAC''\<rparr>,
            \<lparr>account_number = ''B'', balance_date = ''2024-01-02'', CashBalance.currency = ''USD'',
             balance_local = 20, balance_usd = 20, entity_code = ''E2'', CashBalance.region = ''APAC''\<rparr>,
            \<lparr>account_number = ''C'', balance_date = ''2024-01-02'', CashBalance.currency = ''USD'',
             balance_local = 60, balance_usd = 60, entity_code = ''E3'', CashBalance.region = ''APAC''\<rparr>],
         fx_rates = [],
         cash_pools = [\<lparr>pool_name = ''APAC Cash Pool'', pool_type = ''Physical'',
                        CashPool.region = ''APAC'', header_account = ''POOL-APAC-HEADER'',
                        participant_accounts = [''A'', ''B'', ''C''], CashPool.currency = ''USD''\<rparr>],
         netting_results = [], validation_logs = []\<rparr> ''APAC'')
   = Inr [- 20, - 10, 30]"
proof -
  let ?cbs = "[\<lparr>account_number = ''A'', balance_date = ''2024-01-02'', CashBalance.currency = ''USD'',
             balance_local = 10, balance_usd = 10, entity_code = ''E1'', CashBalance.region = ''APAC''\<rparr>,
            \<lparr>account_number = ''B'', balance_date = ''2024-01-02'', CashBalance.currency = ''USD'',
             balance_local = 20, balance_usd = 20, entity_code = ''E2'', CashBalance.region = ''APAC''\<rparr>,
            \<lparr>account_number = ''C'', balance_date = ''2024-01-02'', CashBalance.currency = ''USD'',
             balance_local = 60, balance_usd = 60, entity_code = ''E3'', CashBalance.region = ''APAC''\<rparr>]"
  let ?p = "\<lparr>pool_name = ''APAC Cash Pool'', pool_type = ''Physical'',
                        CashPool.region = ''APAC'', header_account = ''POOL-APAC-HEADER'',
                        participant_accounts = [''A'', ''B'', ''C''], CashPool.currency = ''USD''\<rparr>"
  let ?s = "\<lparr>cash_balances = map model_dump_balance ?cbs, fx_rates = [], cash_pools = [?p],
             netting_results = [], validation_logs = []\<rparr>"
  have h1: "List.find (\<lambda>p. CashPool.region p = ''APAC'') (cash_pools ?s) = Some ?p"
    by simp
  have h2: "pool_balances ?s ?p = map model_dump_balance ?cbs"
    by (simp add: pool_balances_def to_list_def model_dump_balance_def)
  have h3: "?cbs \<noteq> []"
    by simp
  have h4: "\<forall>b \<in> set ?cbs. is_float (balance_usd b)"
    by (simp add: is_float_def float_eval)
  have h5: "(90::real) = sum_left_to_right (map balance_usd ?cbs)"
    by (simp add: sum_left_to_right_def float_eval)
  have h6: "(30::real) = fdiv 90 (real (length ?cbs))"
    by (simp add: float_eval)
  have h7: "[- 20, - 10, 30] = map (\<lambda>b. fsub (balance_usd b) 30) ?cbs"
    by (simp add: float_eval)
  have h8: "\<bar>90 - sum_list (map balance_usd ?cbs)\<bar> \<le> (0::real)"
    by simp
  from cash_pooling_variances[where sum_float = sum_left_to_right
      and now = "''2024-01-03T00:00:00+00:00''", OF h1 h2 h3 h4 h5 h6 h7 h8]
  obtain resp where "calculate_cash_pooling sum_left_to_right ''2024-01-03T00:00:00+00:00'' ?s ''APAC'' = Inr resp"
    and "numbers ''variance_from_avg'' (entries ''participants'' resp)
         = map (\<lambda>v. py_round v 2) [- 20, - 10, 30]"
    by blast
  moreover have "map (\<lambda>v. py_round v 2) [- 20, - 10, 30] = [- 20, - 10, 30]"
    by (simp add: float_eval)
  ultimately show ?thesis
    by simp
qed

text \<open>
  Claim C6 as stated fails: for three balances of 0, 0 and 1 the reported variances are
  -0.33, -0.33 and 0.67, which are not the differences from the average, a third, and
  which sum to more than 0.009, far from 0 for a floating-point tolerance.
\<close>

theorem cash_pooling_variances_counterexample:
  "map_sum id (\<lambda>resp. numbers ''variance_from_avg'' (entries ''participants'' resp))
     (calculate_cash_pooling sum_left_to_right ''2024-01-03T00:00:00+00:00''
        \<lparr>cash_balances = map model_dump_balance
           [\<lparr>account_number = ''A'', balance_date = ''2024-01-02'', CashBalance.currency = ''USD'',
             balance_local = 0, balance_usd = 0, entity_code = ''E1'', CashBalance.region = ''APAC''\<rparr>,
            \<lparr>account_number = ''B'', balance_date = ''2024-01-02'', CashBalance.currency = ''USD'',
             balance_local = 0, balance_usd = 0, entity_code = ''E2'', CashBalance.region = ''APAC''\<rparr>,
            \<lparr>account_number = ''C'', balance_date = ''2024-01-02'', CashBalance.currency = ''USD'',
             balance_local = 1, balance_usd = 1, entity_code = ''E3'', CashBalance.region = ''APAC''\<rparr>],
         fx_rates = [],
         cash_pools = [\<lparr>pool_name = ''APAC Cash Pool'', pool_type = ''Physical'',
                        CashPool.region = ''APAC'', header_account = ''POOL-APAC-HEADER'',
                        participant_accounts = [''A'', ''B'', ''C''], CashPool.currency = ''USD''\<rparr>],
         netting_results = [], validation_logs = []\<rparr> ''APAC'')
   = Inr [nearest_float (- (33 / 100)), nearest_float (- (33 / 100)), nearest_float (67 / 100)]
   \<and> 9 / 1000 < sum_list [nearest_float (- (33 / 100)), nearest_float (- (33 / 100)),
                             nearest_float (67 / 100)]"
proof -
  let ?cbs = "[\<lparr>account_number = ''A'', balance_date = ''2024-01-02'', CashBalance.currency = ''USD'',
             balance_local = 0, balance_usd = 0, entity_code = ''E1'', CashBalance.region = ''APAC''\<rparr>,
            \<lparr>account_number = ''B'', balance_date = ''2024-01-02'', CashBalance.currency = ''USD'',
             balance_local = 0, balance_usd = 0, entity_code = ''E2'', CashBalance.region = ''APAC''\<rparr>,
            \<lparr>account_number = ''C'', balance_date = ''2024-01-02'', CashBalance.currency = ''USD'',
             balance_local = 1, balance_usd = 1, entity_code = ''E3'', CashBalance.region = ''APAC''\<rparr>]"
  let ?p = "\<lparr>pool_name = ''APAC Cash Pool'', pool_type = ''Physical'',
                        CashPool.region = ''APAC'', header_account = ''POOL-APAC-HEADER'',
                        participant_accounts = [''A'', ''B'', ''C''], CashPool.currency = ''USD''\<rparr>"
  let ?s = "\<lparr>cash_balances = map model_dump_balance ?cbs, fx_rates = [], cash_pools = [?p],
             netting_results = [], validation_logs = []\<rparr>"
  let ?avg = "6004799503160661 / 18014398509481984 :: real"
  have h2: "pool_balances ?s ?p = map model_dump_balance ?cbs"
    by (simp add: pool_balances_def to_list_def model_dump_balance_def)
  have t: "sum_left_to_right (map balance_usd ?cbs) = 1"
    by (simp add: sum_left_to_right_def float_eval)
  have a: "fdiv 1 (real (length ?cbs)) = ?avg"
    by (simp add: float_eval)
  have v0: "py_round (fsub 0 ?avg) 2 = nearest_float (- (33 / 100))"
    by (simp add: float_eval)
  have v1: "py_round (fsub 1 ?avg) 2 = nearest_float (67 / 100)"
    by (simp add: float_eval)
  have h1: "List.find (\<lambda>p. CashPool.region p = ''APAC'') (cash_pools ?s) = Some ?p"
    by simp
  have h3: "?cbs \<noteq> []"
    by simp
  note r = calculate_cash_pooling_dump[where sum_float = sum_left_to_right
      and now = "''2024-01-03T00:00:00+00:00''", OF h1 h2 h3 t a]
  have n: "map_sum id (\<lambda>resp. numbers ''variance_from_avg'' (entries ''participants'' resp))
     (calculate_cash_pooling sum_left_to_right ''2024-01-03T00:00:00+00:00'' ?s ''APAC'')
      = Inr [py_round (fsub 0 ?avg) 2, py_round (fsub 0 ?avg) 2, py_round (fsub 1 ?avg) 2]"
    unfolding r by (simp add: entries_def numbers_def)
  have s: "9 / 1000 < sum_list [nearest_float (- (33 / 100)), nearest_float (- (33 / 100)),
                             nearest_float (67 / 100)]"
    by (simp add: float_eval)
  show ?thesis
    unfolding n v0 v1 using s by simp
qed

text \<open>
  The status follows the floats: for three balances equal to the float nearest to 0.7,
  the sum from the left is 2.0999999999999996 and the average 0.6999999999999998, below
  each balance, and all three participants are Surplus.
\<close>

lemma equal_balances_all_surplus:
  "map_sum id (\<lambda>resp. scalars ''status'' (entries ''participants'' resp))
     (calculate_cash_pooling sum_left_to_right ''2024-01-03T00:00:00+00:00''
        \<lparr>cash_balances = map model_dump_balance
           [\<lparr>account_number = ''A'', balance_date = ''2024-01-02'', CashBalance.currency = ''USD'',
             balance_local = 3152519739159347 / 4503599627370496,
             balance_usd = 3152519739159347 / 4503599627370496, entity_code = ''E1'',
             CashBalance.region = ''APAC''\<rparr>,
            \<lparr>account_number = ''B'', balance_date = ''2024-01-02'', CashBalance.currency = ''USD'',
             balance_local = 3152519739159347 / 4503599627370496,
             balance_usd = 3152519739159347 / 4503599627370496, entity_code = ''E2'',
             CashBalance.region = ''APAC''\<rparr>,
            \<lparr>account_number = ''C'', balance_date = ''2024-01-02'', CashBalance.currency = ''USD'',
             balance_local = 3152519739159347 / 4503599627370496,
             balance_usd = 3152519739159347 / 4503599627370496, entity_code = ''E3'',
             CashBalance.region = ''APAC''\<rparr>],
         fx_rates = [],
         cash_pools = [\<lparr>pool_name = ''APAC Cash Pool'', pool_type = ''Physical'',
                        CashPool.region = ''APAC'', header_account = ''POOL-APAC-HEADER'',
                        participant_accounts = [''A'', ''B'', ''C''], CashPool.currency = ''USD''\<rparr>],
         netting_results = [], validation_logs = []\<rparr> ''APAC'')
   = Inr [PyStr ''Surplus'', PyStr ''Surplus'', PyStr ''Surplus'']"
proof -
  define x :: real where "x = 3152519739159347 / 4503599627370496"
  define avg :: real where "avg = 6305039478318693 / 9007199254740992"
  let ?cbs = "[\<lparr>account_number = ''A'', balance_date = ''2024-01-02'', CashBalance.currency = ''USD'',
             balance_local = x, balance_usd = x, entity_code = ''E1'', CashBalance.region = ''APAC''\<rparr>,
            \<lparr>account_number = ''B'', balance_date = ''2024-01-02'', CashBalance.currency = ''USD'',
             balance_local = x, balance_usd = x, entity_code = ''E2'', CashBalance.region = ''APAC''\<rparr>,
            \<lparr>account_number = ''C'', balance_date = ''2024-01-02'', CashBalance.currency = ''USD'',
             balance_local = x, balance_usd = x, entity_code = ''E3'', CashBalance.region = ''APAC''\<rparr>]"
  let ?p = "\<lparr>pool_name = ''APAC Cash Pool'', pool_type = ''Physical'',
                        CashPool.region = ''APAC'', header_account = ''POOL-APAC-HEADER'',
                        participant_accounts = [''A'', ''B'', ''C''], CashPool.currency = ''USD''\<rparr>"
  let ?s = "\<lparr>cash_balances = map model_dump_balance ?cbs, fx_rates = [], cash_pools = [?p],
             netting_results = [], validation_logs = []\<rparr>"
  have a1: "fadd 0 x = x"
    unfolding x_def by (simp add: float_eval)
  have a2: "fadd x x = 3152519739159347 / 2251799813685248"
    unfolding x_def by (simp add: float_eval)
  have a3: "fadd (3152519739159347 / 2251799813685248) x = 1182194902184755 / 562949953421312"
    unfolding x_def by (simp add: float_eval)
  have t: "sum_left_to_right (map balance_usd ?cbs) = 1182194902184755 / 562949953421312"
    by (simp add: sum_left_to_right_def a1 a2 a3)
  have a: "fdiv (1182194902184755 / 562949953421312) (real (length ?cbs)) = avg"
    unfolding avg_def by (simp add: float_eval)
  have v: "0 < fsub x avg"
    unfolding x_def avg_def by (simp add: float_eval)
  have h1: "List.find (\<lambda>p. CashPool.region p = ''APAC'') (cash_pools ?s) = Some ?p"
    by simp
  have h2: "pool_balances ?s ?p = map model_dump_balance ?cbs"
    by (simp add: pool_balances_def to_list_def model_dump_balance_def)
  have h3: "?cbs \<noteq> []"
    by simp
  note r = calculate_cash_pooling_dump[where sum_float = sum_left_to_right
      and now = "''2024-01-03T00:00:00+00:00''", OF h1 h2 h3 t a]
  have "map_sum id (\<lambda>resp. scalars ''status'' (entries ''participants'' resp))
     (calculate_cash_pooling sum_left_to_right ''2024-01-03T00:00:00+00:00'' ?s ''APAC'')
      = Inr [PyStr ''Surplus'', PyStr ''Surplus'', PyStr ''Surplus'']"
    unfolding r using v by (simp add: entries_def scalars_def)
  then show ?thesis
    unfolding x_def .
qed

section \<open>Grouping by entity\<close>

lemma group_sum_dump:
  "group_sum ''entity_code'' ''balance_usd'' (map model_dump_balance cbs) d
     = Inr (foldl group_step d cbs)"
  by (induction cbs arbitrary: d)
     (simp_all add: bind_def getitem_def model_dump_balance_def group_step_def)

lemma keys_update:
  "map fst (AList.update k v al) = (if k \<in> set (map fst al) then map fst al else map fst al @ [k])"
  by (induction al) auto

lemma insertion_order_acc:
  "foldl (\<lambda>acc x. if x \<in> set acc then acc else acc @ [x]) acc xs
     = acc @ filter (\<lambda>y. y \<notin> set acc) (insertion_order xs)"
proof (induction xs arbitrary: acc)
  case Nil
  then show ?case by simp
next
  case (Cons x xs)
  show ?case
  proof (cases "x \<in> set acc")
    case True
    then have "filter (\<lambda>y. y \<noteq> x \<and> y \<notin> set acc) (insertion_order xs)
             = filter (\<lambda>y. y \<notin> set acc) (insertion_order xs)"
      by (intro filter_cong) auto
    with True Cons show ?thesis by simp
  next
    case False
    then have "filter (\<lambda>y. y \<notin> set acc \<and> y \<noteq> x) (insertion_order xs)
             = filter (\<lambda>y. y \<noteq> x \<and> y \<notin> set acc) (insertion_order xs)"
      by (intro filter_cong) auto
    with False Cons show ?thesis by simp
  qed
qed

lemma keys_foldl_group_step:
  "map fst (foldl group_step d cbs)
     = foldl (\<lambda>acc x. if x \<in> set acc then acc else acc @ [x]) (map fst d) (map (\<lambda>b. PyStr (entity_code b)) cbs)"
  by (induction cbs arbitrary: d) (simp_all add: group_step_def keys_update)

lemma insertion_order_map_inj:
  "inj f \<Longrightarrow> insertion_order (map f xs) = map f (insertion_order xs)"
  by (induction xs) (simp_all add: filter_map comp_def inj_eq)

lemma keys_group:
  "map fst (foldl group_step [] cbs) = map PyStr (insertion_order (map entity_code cbs))"
proof -
  have "inj PyStr" by (simp add: inj_def)
  then have "insertion_order (map PyStr (map entity_code cbs)) = map PyStr (insertion_order (map entity_code cbs))"
    by (rule insertion_order_map_inj)
  then show ?thesis
    by (simp add: keys_foldl_group_step insertion_order_acc comp_def)
qed

lemma distinct_keys_update: "distinct (map fst al) \<Longrightarrow> distinct (map fst (AList.update k v al))"
  by (simp add: keys_update)

lemma distinct_group: "distinct (map fst d) \<Longrightarrow> distinct (map fst (foldl group_step d cbs))"
  by (induction cbs arbitrary: d) (simp_all add: group_step_def distinct_keys_update)

lemma dict_get_update:
  "dict_get (AList.update k v al) k' dflt = (if k' = k then v else dict_get al k' dflt)"
  by (simp add: dict_get_def update_conv')

lemma dict_get_group:
  "dict_get (foldl group_step d cbs) k 0
     = foldl fadd (dict_get d k 0) (map balance_usd (filter (\<lambda>b. PyStr (entity_code b) = k) cbs))"
  by (induction cbs arbitrary: d) (simp_all add: group_step_def dict_get_update)

lemma distinct_keys_eq:
  assumes "distinct (map fst al)"
  shows "al = map (\<lambda>k. (k, dict_get al k dflt)) (map fst al)"
  using assms
proof (induction al)
  case Nil
  then show ?case by simp
next
  case (Cons p al)
  obtain k v where p: "p = (k, v)" by (cases p)
  from Cons.prems p have nk: "k \<notin> set (map fst al)" and d: "distinct (map fst al)" by simp_all
  have "map (\<lambda>k'. (k', dict_get ((k, v) # al) k' dflt)) (map fst al)
      = map (\<lambda>k'. (k', dict_get al k' dflt)) (map fst al)"
    using nk by (intro map_cong) (auto simp: dict_get_def)
  with Cons.IH[OF d] p show ?case
    by (simp add: dict_get_def)
qed

lemma dict_get_Nil: "dict_get [] k dflt = dflt"
  by (simp add: dict_get_def)

lemma group_entity_totals: "foldl group_step [] cbs = entity_totals cbs"
proof -
  have "foldl group_step [] cbs
      = map (\<lambda>k. (k, dict_get (foldl group_step [] cbs) k 0)) (map fst (foldl group_step [] cbs))"
    by (rule distinct_keys_eq) (simp add: distinct_group)
  also have "\<dots> = entity_totals cbs"
    by (simp add: keys_group dict_get_group dict_get_Nil entity_totals_def comp_def)
  finally show ?thesis .
qed

lemma group_sum_entity_totals:
  "group_sum ''entity_code'' ''balance_usd'' (map model_dump_balance cbs) [] = Inr (entity_totals cbs)"
  by (simp add: group_sum_dump group_entity_totals)

lemma entity_totals_nonempty: "cbs \<noteq> [] \<Longrightarrow> entity_totals cbs \<noteq> []"
  by (cases cbs) (simp_all add: entity_totals_def)

section \<open>The netting pairs\<close>

lemma netting_fields_dict:
  "netting_fields (netting_dict today f t a st) = (Some (Leaf f), Some (Leaf t), Some (JNum a), Some (JStr ''USD''))"
  by (simp add: netting_fields_def netting_dict_def)

lemma surplus_loop_fields:
  "map netting_fields (surplus_loop rnd today avg de ss results)
     = map netting_fields results
       @ map (\<lambda>(de, su). (Some (Leaf (fst su)), Some (Leaf (fst de)),
                Some (JNum (py_round (netting_amount avg (snd de) (snd su)) 2)), Some (JStr ''USD'')))
           (filter (\<lambda>(de, su). netting_amount avg (snd de) (snd su) > 100000) (map (Pair de) ss))"
  by (induction ss arbitrary: results) (simp_all add: netting_fields_dict)

lemma deficit_loop_fields:
  "map netting_fields (deficit_loop rnd today avg ds ss results)
     = map netting_fields results
       @ map (\<lambda>(de, su). (Some (Leaf (fst su)), Some (Leaf (fst de)),
                Some (JNum (py_round (netting_amount avg (snd de) (snd su)) 2)), Some (JStr ''USD'')))
           (filter (\<lambda>(de, su). netting_amount avg (snd de) (snd su) > 100000) (List.product ds ss))"
  by (induction ds arbitrary: results) (simp_all add: surplus_loop_fields)

lemma surplus_loop_shape:
  assumes "\<forall>n \<in> set results. Q n"
    and "\<And>su st. su \<in> set ss \<Longrightarrow> netting_amount avg (snd de) (snd su) > 100000 \<Longrightarrow>
           Q (netting_dict today (fst su) (fst de) (py_round (netting_amount avg (snd de) (snd su)) 2) st)"
  shows "\<forall>n \<in> set (surplus_loop rnd today avg de ss results). Q n"
  using assms
proof (induction ss arbitrary: results)
  case Nil
  then show ?case by simp
next
  case (Cons su ss)
  show ?case
    unfolding surplus_loop.simps
    by (rule Cons.IH) (use Cons.prems in auto)
qed

lemma deficit_loop_shape:
  assumes "\<forall>n \<in> set results. Q n"
    and "\<And>de su st. de \<in> set ds \<Longrightarrow> su \<in> set ss \<Longrightarrow> netting_amount avg (snd de) (snd su) > 100000 \<Longrightarrow>
           Q (netting_dict today (fst su) (fst de) (py_round (netting_amount avg (snd de) (snd su)) 2) st)"
  shows "\<forall>n \<in> set (deficit_loop rnd today avg ds ss results). Q n"
  using assms
proof (induction ds arbitrary: results)
  case Nil
  then show ?case by simp
next
  case (Cons de ds)
  have "\<forall>n \<in> set (surplus_loop rnd today avg de ss results). Q n"
    by (rule surplus_loop_shape) (use Cons.prems in auto)
  then show ?case
    unfolding deficit_loop.simps
    by (rule Cons.IH) (use Cons.prems in auto)
qed

lemma amounts_ok:
  "\<forall>n \<in> set ns. \<exists>x. field n ''amount'' = Some (JNum x) \<Longrightarrow> \<exists>xs. amounts ns = Inr xs"
  by (induction ns) (auto simp: bind_def)

lemma sum_amount_ok:
  "\<forall>n \<in> set ns. \<exists>x. field n ''amount'' = Some (JNum x) \<Longrightarrow> \<exists>t. sum_amount sum_float ns = Inr t"
  using amounts_ok[of ns] by (auto simp: sum_amount_def bind_def)

lemma netting_objs_of_ok:
  "\<forall>n \<in> set ns. \<exists>obj. NettingResult_of n = Inr obj \<Longrightarrow> \<exists>objs. netting_objs_of ns = Inr objs"
  by (induction ns) (auto simp: bind_def)

lemma NettingResult_of_dict:
  "NettingResult_of (netting_dict today (PyStr f) (PyStr t) a st)
     = Inr \<lparr>netting_date = today, from_entity = f, to_entity = t, amount = a,
            NettingResult.currency = ''USD'', NettingResult.status = st\<rparr>"
  by (simp add: NettingResult_of_def netting_dict_def str_field_def float_field_def bind_def)

lemma amount_field_dict: "field (netting_dict today f t a st) ''amount'' = Some (JNum a)"
  by (simp add: netting_dict_def)

lemma entity_totals_keys: "p \<in> set (entity_totals cbs) \<Longrightarrow> \<exists>e. fst p = PyStr e"
  by (auto simp: entity_totals_def)

lemma average_nonempty:
  "eb \<noteq> [] \<Longrightarrow> average sum_float eb = Inr (fdiv (sum_float (map snd eb)) (real (length eb)))"
  by (simp add: average_def)

lemma length_product_take: "length (List.product (take 3 xs) (take 2 ys)) \<le> 6"
proof -
  have "length (take 3 xs) * length (take 2 ys) \<le> 3 * 2"
    by (rule mult_le_mono) simp_all
  then show ?thesis by simp
qed

lemma netting_transactions_dump:
  assumes "cbs \<noteq> []"
  shows "netting_transactions sum_float rnd today (map model_dump_balance cbs)
     = Inr (deficit_loop rnd today
              (fdiv (sum_float (map snd (entity_totals cbs))) (real (length (entity_totals cbs))))
              (take 3 (filter (\<lambda>(k, v). v < fdiv (sum_float (map snd (entity_totals cbs)))
                                              (real (length (entity_totals cbs))))
                         (entity_totals cbs)))
              (take 2 (filter (\<lambda>(k, v). v > fdiv (sum_float (map snd (entity_totals cbs)))
                                              (real (length (entity_totals cbs))))
                         (entity_totals cbs))) [])"
  using entity_totals_nonempty[OF assms]
  by (simp add: netting_transactions_def group_sum_entity_totals bind_def average_nonempty Let_def)

text \<open>
  The amount in floating point: for the entity totals 2406661 and 33293241 around the
  average 16379148.25 the product by the float 0.3 is the float just below 4191746.175,
  and the amount emitted is 4191746.17.
\<close>

lemma netting_amount_rounds_down:
  "netting_amount (65516593 / 4) 2406661 33293241 = 4500853183689523 / 1073741824
   \<and> py_round (netting_amount (65516593 / 4) 2406661 33293241) 2
       = nearest_float (419174617 / 100)"
proof -
  have d: "\<bar>fsub 2406661 (65516593 / 4)\<bar> = 55889949 / 4"
    by (simp add: float_eval)
  have s: "fsub 33293241 (65516593 / 4) = 67656371 / 4"
    by (simp add: float_eval)
  have p3: "nearest_float (3 / 10) = 5404319552844595 / 18014398509481984"
    by (simp add: float_eval)
  have n: "netting_amount (65516593 / 4) 2406661 33293241 = 4500853183689523 / 1073741824"
    unfolding netting_amount_def d s p3 by (simp add: float_eval)
  have "py_round (4500853183689523 / 1073741824) 2 = nearest_float (419174617 / 100)"
    by (simp add: float_eval)
  then show ?thesis
    unfolding n by simp
qed

text \<open>
  Claim C2. For every non-empty snapshot of balance records, the dictionary the run
  groups is the entity totals in insertion order; with their average, the run takes the
  first three entities below it and the first two above it, at most 6 pairs, a deficit
  entity with each surplus entity in turn; for a pair its amount is
  \<open>min(abs(deficit_total - avg), surplus_total - avg) * 0.3\<close>, in floating point, and the
  transactions of the response are, in that order, those of the pairs whose amount is
  above 100000: from the surplus entity to the deficit entity, in USD, the amount
  rounded to two decimals. Every amount emitted is positive.
\<close>

theorem run_netting_pairs:
  assumes "to_list 10000 (cash_balances s) = map model_dump_balance cbs"
    and "cbs \<noteq> []"
    and "\<forall>b \<in> set cbs. is_float (balance_usd b)"
    and "avg_balance = fdiv (sum_float (map snd (entity_totals cbs))) (real (length (entity_totals cbs)))"
    and "deficits = take 3 (filter (\<lambda>(k, v). v < avg_balance) (entity_totals cbs))"
    and "surpluses = take 2 (filter (\<lambda>(k, v). v > avg_balance) (entity_totals cbs))"
  shows "group_sum ''entity_code'' ''balance_usd'' (to_list 10000 (cash_balances s)) []
           = Inr (entity_totals cbs)
     \<and> average sum_float (entity_totals cbs) = Inr avg_balance
     \<and> length (List.product deficits surpluses) \<le> 6
     \<and> (\<forall>d su. netting_amount avg_balance d su
           = fmul (min \<bar>fsub d avg_balance\<bar> (fsub su avg_balance)) (nearest_float (3 / 10)))
     \<and> (\<exists>resp. snd (run_netting sum_float rnd today s) = Inr resp
          \<and> field resp ''transactions'' = Some (Arr (entries ''transactions'' resp))
          \<and> map netting_fields (entries ''transactions'' resp)
              = map (\<lambda>(de, su). (Some (Leaf (fst su)), Some (Leaf (fst de)),
                       Some (JNum (py_round (netting_amount avg_balance (snd de) (snd su)) 2)),
                       Some (JStr ''USD'')))
                  (filter (\<lambda>(de, su). netting_amount avg_balance (snd de) (snd su) > 100000)
                     (List.product deficits surpluses))
          \<and> (\<forall>n \<in> set (entries ''transactions'' resp).
                \<exists>x. field n ''amount'' = Some (JNum x) \<and> 0 < x))"
proof (intro conjI)
  show "group_sum ''entity_code'' ''balance_usd'' (to_list 10000 (cash_balances s)) []
           = Inr (entity_totals cbs)"
    by (simp add: assms(1) group_sum_entity_totals)
  show "average sum_float (entity_totals cbs) = Inr avg_balance"
    using entity_totals_nonempty[OF assms(2)] by (simp add: average_nonempty assms(4))
  show "length (List.product deficits surpluses) \<le> 6"
    unfolding assms(5,6) by (rule length_product_take)
  show "\<forall>d su. netting_amount avg_balance d su
           = fmul (min \<bar>fsub d avg_balance\<bar> (fsub su avg_balance)) (nearest_float (3 / 10))"
    by (simp add: netting_amount_def)
next
  let ?results = "deficit_loop rnd today avg_balance deficits surpluses []"
  have tx: "netting_transactions sum_float rnd today (map model_dump_balance cbs) = Inr ?results"
    unfolding assms(4,5,6) using assms(2) by (rule netting_transactions_dump)
  have str_keys: "\<And>p. p \<in> set deficits \<or> p \<in> set surpluses \<Longrightarrow> \<exists>e. fst p = PyStr e"
    unfolding assms(5,6) using entity_totals_keys by (metis in_set_takeD filter_is_subset subsetD)
  have objs_each: "\<forall>n \<in> set ?results. \<exists>obj. NettingResult_of n = Inr obj"
  proof (rule deficit_loop_shape)
    show "\<forall>n \<in> set []. \<exists>obj. NettingResult_of n = Inr obj" by simp
  next
    fix de su :: "pyval \<times> real" and st :: string
    assume "de \<in> set deficits" "su \<in> set surpluses"
    then obtain f t where "fst su = PyStr f" "fst de = PyStr t"
      using str_keys by blast
    then show "\<exists>obj. NettingResult_of (netting_dict today (fst su) (fst de)
                 (py_round (netting_amount avg_balance (snd de) (snd su)) 2) st) = Inr obj"
      by (simp add: NettingResult_of_dict)
  qed
  then obtain objs where objs: "netting_objs_of ?results = Inr objs"
    using netting_objs_of_ok by blast
  have pos: "\<forall>n \<in> set ?results. \<exists>x. field n ''amount'' = Some (JNum x) \<and> 0 < x"
  proof (rule deficit_loop_shape)
    show "\<forall>n \<in> set []. \<exists>x. field n ''amount'' = Some (JNum x) \<and> 0 < x" by simp
  next
    fix de su :: "pyval \<times> real" and st :: string
    assume "netting_amount avg_balance (snd de) (snd su) > 100000"
    then have "0 < py_round (netting_amount avg_balance (snd de) (snd su)) 2"
      by (rule py_round_pos)
    then show "\<exists>x. field (netting_dict today (fst su) (fst de)
                 (py_round (netting_amount avg_balance (snd de) (snd su)) 2) st) ''amount''
                 = Some (JNum x) \<and> 0 < x"
      by (simp add: amount_field_dict)
  qed
  then have "\<forall>n \<in> set ?results. \<exists>x. field n ''amount'' = Some (JNum x)" by blast
  then obtain netted where netted: "sum_amount sum_float ?results = Inr netted"
    using sum_amount_ok by blast
  let ?resp = "Obj [(PyStr ''status'', JStr ''success''),
                    (PyStr ''netting_date'', JStr today),
                    (PyStr ''total_transactions'', JNum (real (length ?results))),
                    (PyStr ''total_netted_usd'', JNum (py_round netted 2)),
                    (PyStr ''transactions'', Arr ?results)]"
  have run: "snd (run_netting sum_float rnd today s) = Inr ?resp"
  proof (cases "?results = []")
    case True
    with netted show ?thesis
      by (simp add: run_netting_def assms(1) tx bind_def http_500_def Let_def)
  next
    case False
    then show ?thesis
      by (simp add: run_netting_def assms(1) tx objs netted bind_def http_500_def Let_def)
  qed
  have ent: "entries ''transactions'' ?resp = ?results"
    by (simp add: entries_def)
  have fields: "map netting_fields ?results
              = map (\<lambda>(de, su). (Some (Leaf (fst su)), Some (Leaf (fst de)),
                       Some (JNum (py_round (netting_amount avg_balance (snd de) (snd su)) 2)),
                       Some (JStr ''USD'')))
                  (filter (\<lambda>(de, su). netting_amount avg_balance (snd de) (snd su) > 100000)
                     (List.product deficits surpluses))"
    by (simp add: deficit_loop_fields)
  show "\<exists>resp. snd (run_netting sum_float rnd today s) = Inr resp
          \<and> field resp ''transactions'' = Some (Arr (entries ''transactions'' resp))
          \<and> map netting_fields (entries ''transactions'' resp)
              = map (\<lambda>(de, su). (Some (Leaf (fst su)), Some (Leaf (fst de)),
                       Some (JNum (py_round (netting_amount avg_balance (snd de) (snd su)) 2)),
                       Some (JStr ''USD'')))
                  (filter (\<lambda>(de, su). netting_amount avg_balance (snd de) (snd su) > 100000)
                     (List.product deficits surpluses))
          \<and> (\<forall>n \<in> set (entries ''transactions'' resp).
                \<exists>x. field n ''amount'' = Some (JNum x) \<and> 0 < x)"
    apply (rule exI[of _ ?resp])
    apply (intro conjI)
       apply (rule run)
      apply (simp add: entries_def)
     apply (simp only: ent fields)
    apply (simp only: ent)
    apply (rule pos)
    done
qed

text \<open>
  Three entities with a total of 500,000, of 500,000 and of 1,500,000: the average is
  the float 833333.3333333334, the amount of either pair is 100000.00000000001, above
  the threshold, and two transactions of 100,000 USD are emitted, from E3 to E1 and from
  E3 to E2.
\<close>

theorem run_netting_pairs_witness:
  "map_sum id (\<lambda>resp. map netting_fields (entries ''transactions'' resp))
     (snd (run_netting sum_left_to_right (\<lambda>i. 0) ''2024-01-03''
        \<lparr>cash_balances = map model_dump_balance
           [\<lparr>account_number = ''A'', balance_date = ''2024-01-02'', CashBalance.currency = ''USD'',
             balance_local = 500000, balance_usd = 500000, entity_code = ''E1'',
             CashBalance.region = ''AMER''\<rparr>,
            \<lparr>account_number = ''B'', balance_date = ''2024-01-02'', CashBalance.currency = ''USD'',
             balance_local = 500000, balance_usd = 500000, entity_code = ''E2'',
             CashBalance.region = ''AMER''\<rparr>,
            \<lparr>account_number = ''C'', balance_date = ''2024-01-02'', CashBalance.currency = ''USD'',
             balance_local = 1500000, balance_usd = 1500000, entity_code = ''E3'',
             CashBalance.region = ''AMER''\<rparr>],
         fx_rates = [], cash_pools = [], netting_results = [], validation_logs = []\<rparr>))
   = Inr [(Some (JStr ''E3''), Some (JStr ''E1''), Some (JNum 100000), Some (JStr ''USD'')),
          (Some (JStr ''E3''), Some (JStr ''E2''), Some (JNum 100000), Some (JStr ''USD''))]"
proof -
  let ?cbs = "[\<lparr>account_number = ''A'', balance_date = ''2024-01-02'', CashBalance.currency = ''USD'',
             balance_local = 500000, balance_usd = 500000, entity_code = ''E1'',
             CashBalance.region = ''AMER''\<rparr>,
            \<lparr>account_number = ''B'', balance_date = ''2024-01-02'', CashBalance.currency = ''USD'',
             balance_local = 500000, balance_usd = 500000, entity_code = ''E2'',
             CashBalance.region = ''AMER''\<rparr>,
            \<lparr>account_number = ''C'', balance_date = ''2024-01-02'', CashBalance.currency = ''USD'',
             balance_local = 1500000, balance_usd = 1500000, entity_code = ''E3'',
             CashBalance.region = ''AMER''\<rparr>]"
  let ?s = "\<lparr>cash_balances = map model_dump_balance ?cbs,
         fx_rates = [], cash_pools = [], netting_results = [], validation_logs = []\<rparr>"
  define avg :: real where "avg = 7158278826666667 / 8589934592"
  define amt :: real where "amt = 6871947673600001 / 68719476736"
  have f1: "nearest_float 500000 = 500000" "nearest_float 1500000 = 1500000"
    by (simp_all add: float_eval)
  have et: "entity_totals ?cbs = [(PyStr ''E1'', 500000), (PyStr ''E2'', 500000), (PyStr ''E3'', 1500000)]"
    by (simp add: entity_totals_def fadd_def f1)
  have sm: "sum_left_to_right [500000, 500000, 1500000] = 2500000"
    by (simp add: sum_left_to_right_def float_eval)
  have dv: "fdiv 2500000 3 = avg"
    unfolding avg_def by (simp add: float_eval)
  have lo: "(500000::real) < avg" "avg < 1500000"
    unfolding avg_def by simp_all
  have d1: "\<bar>fsub 500000 avg\<bar> = 2863311530666667 / 8589934592"
    unfolding avg_def by (simp add: float_eval)
  have d2: "fsub 1500000 avg = 5726623061333333 / 8589934592"
    unfolding avg_def by (simp add: float_eval)
  have p3: "nearest_float (3 / 10) = 5404319552844595 / 18014398509481984"
    by (simp add: float_eval)
  have na: "netting_amount avg 500000 1500000 = amt"
    unfolding netting_amount_def d1 d2 p3 amt_def by (simp add: float_eval)
  have gt: "100000 < amt"
    unfolding amt_def by simp
  have pr: "py_round amt 2 = 100000"
    unfolding amt_def by (simp add: float_eval)
  have h1: "to_list 10000 (cash_balances ?s) = map model_dump_balance ?cbs"
    by (simp add: to_list_def)
  have h2: "?cbs \<noteq> []" by simp
  have h3: "\<forall>b \<in> set ?cbs. is_float (balance_usd b)"
    by (simp add: is_float_def f1)
  have h4: "avg = fdiv (sum_left_to_right (map snd (entity_totals ?cbs))) (real (length (entity_totals ?cbs)))"
    unfolding et using sm dv by simp
  have h5: "[(PyStr ''E1'', 500000::real), (PyStr ''E2'', 500000)]
      = take 3 (filter (\<lambda>(k, v). v < avg) (entity_totals ?cbs))"
    unfolding et using lo by simp
  have h6: "[(PyStr ''E3'', 1500000::real)] = take 2 (filter (\<lambda>(k, v). v > avg) (entity_totals ?cbs))"
    unfolding et using lo by simp
  from run_netting_pairs[where sum_float = sum_left_to_right and rnd = "\<lambda>i. 0"
      and today = "''2024-01-03''", OF h1 h2 h3 h4 h5 h6]
  obtain resp where "snd (run_netting sum_left_to_right (\<lambda>i. 0) ''2024-01-03'' ?s) = Inr resp"
    and "map netting_fields (entries ''transactions'' resp)
              = map (\<lambda>(de, su). (Some (Leaf (fst su)), Some (Leaf (fst de)),
                       Some (JNum (py_round (netting_amount avg (snd de) (snd su)) 2)),
                       Some (JStr ''USD'')))
                  (filter (\<lambda>(de, su). netting_amount avg (snd de) (snd su) > 100000)
                     (List.product [(PyStr ''E1'', 500000), (PyStr ''E2'', 500000)]
                        [(PyStr ''E3'', 1500000)]))"
    by blast
  then show ?thesis
    using gt by (simp add: na pr)
qed

section \<open>Replacement of the netting results\<close>

lemma netting_transactions_amounts:
  assumes "netting_transactions sum_float rnd today balances = Inr results"
  shows "\<forall>n \<in> set results. \<exists>x. field n ''amount'' = Some (JNum x)"
proof -
  from assms obtain eb avg where
    r: "results = deficit_loop rnd today avg
          (take 3 (filter (\<lambda>(k, v). v < avg) eb)) (take 2 (filter (\<lambda>(k, v). v > avg) eb)) []"
    by (auto simp: netting_transactions_def bind_def Let_def split: sum.splits)
  show ?thesis
    unfolding r
    by (rule deficit_loop_shape) (simp_all add: amount_field_dict)
qed

text \<open>
  Claim C10. The netting run first deletes the stored netting results and then reads the
  balances; the only other write it can issue is one insertion, after them, of the
  transactions of the run. After the run, failed or not, the store holds the objects of
  the transactions of the response, and nothing when the run failed or emitted none;
  the other collections are as before, and the outcome does not depend on the results
  stored before.
\<close>

theorem run_netting_replaces_results:
  "(case run_netting sum_float rnd today s of (issued, outcome) \<Rightarrow>
      (\<exists>rest. issued = Delete_netting_results # Find_cash_balances # rest
          \<and> (rest = [] \<or> rest = [Insert_netting_results (netting_results (apply_ops s issued))]))
    \<and> (case outcome of
          Inl e \<Rightarrow> netting_results (apply_ops s issued) = []
        | Inr resp \<Rightarrow>
            field resp ''transactions'' = Some (Arr (entries ''transactions'' resp))
          \<and> netting_objs_of (entries ''transactions'' resp)
              = Inr (netting_results (apply_ops s issued)))
    \<and> cash_balances (apply_ops s issued) = cash_balances s
    \<and> fx_rates (apply_ops s issued) = fx_rates s
    \<and> cash_pools (apply_ops s issued) = cash_pools s
    \<and> validation_logs (apply_ops s issued) = validation_logs s)
   \<and> run_netting sum_float rnd today (s\<lparr>netting_results := earlier\<rparr>) = run_netting sum_float rnd today s"
proof (rule conjI)
  show "run_netting sum_float rnd today (s\<lparr>netting_results := earlier\<rparr>) = run_netting sum_float rnd today s"
    by (simp add: run_netting_def)
next
  let ?bs = "to_list 10000 (cash_balances s)"
  show "(case run_netting sum_float rnd today s of (issued, outcome) \<Rightarrow>
      (\<exists>rest. issued = Delete_netting_results # Find_cash_balances # rest
          \<and> (rest = [] \<or> rest = [Insert_netting_results (netting_results (apply_ops s issued))]))
    \<and> (case outcome of
          Inl e \<Rightarrow> netting_results (apply_ops s issued) = []
        | Inr resp \<Rightarrow>
            field resp ''transactions'' = Some (Arr (entries ''transactions'' resp))
          \<and> netting_objs_of (entries ''transactions'' resp)
              = Inr (netting_results (apply_ops s issued)))
    \<and> cash_balances (apply_ops s issued) = cash_balances s
    \<and> fx_rates (apply_ops s issued) = fx_rates s
    \<and> cash_pools (apply_ops s issued) = cash_pools s
    \<and> validation_logs (apply_ops s issued) = validation_logs s)"
  proof (cases "netting_transactions sum_float rnd today ?bs")
    case (Inl e)
    then show ?thesis
      by (simp add: run_netting_def apply_ops_def)
  next
    case (Inr results)
    then have "\<forall>n \<in> set results. \<exists>x. field n ''amount'' = Some (JNum x)"
      by (rule netting_transactions_amounts)
    then obtain total where total: "sum_amount sum_float results = Inr total"
      using sum_amount_ok by blast
    show ?thesis
    proof (cases "results = []")
      case True
      with Inr total show ?thesis
        by (simp add: run_netting_def apply_ops_def bind_def http_500_def entries_def)
    next
      case False
      show ?thesis
      proof (cases "netting_objs_of results")
        case (Inl e)
        with Inr False show ?thesis
          by (simp add: run_netting_def apply_ops_def)
      next
        case objs: (Inr netting_objs)
        with Inr False total show ?thesis
          by (simp add: run_netting_def apply_ops_def bind_def http_500_def entries_def)
      qed
    qed
  qed
qed

lemma run_netting_emitting:
  assumes "netting_transactions sum_float rnd today (to_list 10000 (cash_balances s)) = Inr results"
    and "results \<noteq> []"
    and "netting_objs_of results = Inr objs"
    and "sum_amount sum_float results = Inr netted"
  shows "run_netting sum_float rnd today s =
     ([Delete_netting_results, Find_cash_balances, Insert_netting_results objs],
      Inr (Obj [(PyStr ''status'', JStr ''success''),
                (PyStr ''netting_date'', JStr today),
                (PyStr ''total_transactions'', JNum (real (length results))),
                (PyStr ''total_netted_usd'', JNum (py_round netted 2)),
                (PyStr ''transactions'', Arr results)]))"
  using assms by (simp add: run_netting_def bind_def http_500_def)

text \<open>
  A store holding one result of an earlier run, and two entities with a total of
  1,000,000 and of 2,000,000: the run emits one transaction, of 150,000 USD from E2 to
  E1, and after it the stored results are that transaction alone.
\<close>

theorem run_netting_replaces_results_witness:
  "netting_results
     (apply_ops
        \<lparr>cash_balances = map model_dump_balance
           [\<lparr>account_number = ''A'', balance_date = ''2024-01-02'', CashBalance.currency = ''USD'',
             balance_local = 1000000, balance_usd = 1000000, entity_code = ''E1'',
             CashBalance.region = ''AMER''\<rparr>,
            \<lparr>account_number = ''B'', balance_date = ''2024-01-02'', CashBalance.currency = ''USD'',
             balance_local = 2000000, balance_usd = 2000000, entity_code = ''E2'',
             CashBalance.region = ''AMER''\<rparr>],
         fx_rates = [], cash_pools = [],
         netting_results = [\<lparr>netting_date = ''2024-01-01'', from_entity = ''E9'', to_entity = ''E8'',
                              amount = 500000, NettingResult.currency = ''USD'',
                              NettingResult.status = ''Pending''\<rparr>],
         validation_logs = []\<rparr>
        (fst (run_netting sum_left_to_right (\<lambda>i. 0) ''2024-01-03''
           \<lparr>cash_balances = map model_dump_balance
              [\<lparr>account_number = ''A'', balance_date = ''2024-01-02'', CashBalance.currency = ''USD'',
                balance_local = 1000000, balance_usd = 1000000, entity_code = ''E1'',
                CashBalance.region = ''AMER''\<rparr>,
               \<lparr>account_number = ''B'', balance_date = ''2024-01-02'', CashBalance.currency = ''USD'',
                balance_local = 2000000, balance_usd = 2000000, entity_code = ''E2'',
                CashBalance.region = ''AMER''\<rparr>],
            fx_rates = [], cash_pools = [],
            netting_results = [\<lparr>netting_date = ''2024-01-01'', from_entity = ''E9'', to_entity = ''E8'',
                                 amount = 500000, NettingResult.currency = ''USD'',
                                 NettingResult.status = ''Pending''\<rparr>],
            validation_logs = []\<rparr>)))
   = [\<lparr>netting_date = ''2024-01-03'', from_entity = ''E2'', to_entity = ''E1'', amount = 150000,
       NettingResult.currency = ''USD'', NettingResult.status = ''Settled''\<rparr>]"
proof -
  let ?cbs = "[\<lparr>account_number = ''A'', balance_date = ''2024-01-02'', CashBalance.currency = ''USD'',
             balance_local = 1000000, balance_usd = 1000000, entity_code = ''E1'',
             CashBalance.region = ''AMER''\<rparr>,
            \<lparr>account_number = ''B'', balance_date = ''2024-01-02'', CashBalance.currency = ''USD'',
             balance_local = 2000000, balance_usd = 2000000, entity_code = ''E2'',
             CashBalance.region = ''AMER''\<rparr>]"
  let ?old = "[\<lparr>netting_date = ''2024-01-01'', from_entity = ''E9'', to_entity = ''E8'',
                 amount = 500000, NettingResult.currency = ''USD'',
                 NettingResult.status = ''Pending''\<rparr>]"
  let ?s = "\<lparr>cash_balances = map model_dump_balance ?cbs, fx_rates = [], cash_pools = [],
             netting_results = ?old, validation_logs = []\<rparr>"
  let ?tx = "netting_dict ''2024-01-03'' (PyStr ''E2'') (PyStr ''E1'') 150000 ''Settled''"
  have tx: "netting_transactions sum_left_to_right (\<lambda>i. 0) ''2024-01-03'' (map model_dump_balance ?cbs) = Inr [?tx]"
  proof -
    have f1: "nearest_float 1000000 = 1000000" "nearest_float 2000000 = 2000000"
      by (simp_all add: float_eval)
    have et: "entity_totals ?cbs = [(PyStr ''E1'', 1000000), (PyStr ''E2'', 2000000)]"
      by (simp add: entity_totals_def fadd_def f1)
    have av: "fdiv (sum_left_to_right [1000000, 2000000]) 2 = 1500000"
      by (simp add: sum_left_to_right_def float_eval)
    have na: "netting_amount 1500000 1000000 2000000 = 150000"
      by (simp add: netting_amount_def float_eval)
    have pr: "py_round 150000 2 = 150000"
      by (simp add: float_eval)
    have "?cbs \<noteq> []" by simp
    then show ?thesis
      by (subst netting_transactions_dump) (simp_all add: et av na pr random_choice_def)
  qed
  have tx': "netting_transactions sum_left_to_right (\<lambda>i. 0) ''2024-01-03'' (to_list 10000 (cash_balances ?s)) = Inr [?tx]"
    using tx by (simp add: to_list_def)
  have objs: "netting_objs_of [?tx]
      = Inr [\<lparr>netting_date = ''2024-01-03'', from_entity = ''E2'', to_entity = ''E1'', amount = 150000,
              NettingResult.currency = ''USD'', NettingResult.status = ''Settled''\<rparr>]"
    by (simp add: NettingResult_of_dict bind_def)
  have total: "sum_amount sum_left_to_right [?tx] = Inr 150000"
    by (simp add: sum_amount_def amount_field_dict bind_def sum_left_to_right_def float_eval)
  have resp: "snd (run_netting sum_left_to_right (\<lambda>i. 0) ''2024-01-03'' ?s)
      = Inr (Obj [(PyStr ''status'', JStr ''success''),
                  (PyStr ''netting_date'', JStr ''2024-01-03''),
                  (PyStr ''total_transactions'', JNum 1),
                  (PyStr ''total_netted_usd'', JNum 150000),
                  (PyStr ''transactions'', Arr [?tx])])"
    by (subst run_netting_emitting[OF tx' _ objs total]) (simp_all add: float_eval)
  obtain issued outcome where ro: "run_netting sum_left_to_right (\<lambda>i. 0) ''2024-01-03'' ?s = (issued, outcome)"
    by (cases "run_netting sum_left_to_right (\<lambda>i. 0) ''2024-01-03'' ?s")
  from resp have out: "outcome = Inr (Obj [(PyStr ''status'', JStr ''success''),
                  (PyStr ''netting_date'', JStr ''2024-01-03''),
                  (PyStr ''total_transactions'', JNum 1),
                  (PyStr ''total_netted_usd'', JNum 150000),
                  (PyStr ''transactions'', Arr [?tx])])"
    unfolding ro by simp
  have "netting_objs_of [?tx] = Inr (netting_results (apply_ops ?s issued))"
    using run_netting_replaces_results[where sum_float = sum_left_to_right and rnd = "\<lambda>i. 0" and today = "''2024-01-03''" and s = ?s
        and earlier = "[]"]
    unfolding ro out by (simp add: entries_def)
  then have "netting_results (apply_ops ?s issued)
      = [\<lparr>netting_date = ''2024-01-03'', from_entity = ''E2'', to_entity = ''E1'', amount = 150000,
          NettingResult.currency = ''USD'', NettingResult.status = ''Settled''\<rparr>]"
    unfolding objs by simp
  then show ?thesis
    unfolding ro by simp
qed

end
